theory Spec2Isabelle
  imports Main "HOL-Library.Word" "HOL-Library.Sublist"
begin

section \<open>The Go string library, as far as the orchestrator uses it\<close>

text \<open>
  A Go string is a sequence of bytes; it is modelled as a \<^typ>\<open>string\<close>, one
  \<^typ>\<open>char\<close> per byte. Functions of the standard library that work on runes are
  modelled on the UTF-8 encodings of those runes.
\<close>

text \<open>
  The runes for which \<^verbatim>\<open>unicode.IsSpace\<close> holds, UTF-8 encoded: tab, line feed,
  vertical tab, form feed, carriage return, space, U+0085, U+00A0, U+1680, U+2000 to
  U+200A, U+2028, U+2029, U+202F, U+205F and U+3000.
\<close>

definition space_encodings :: "string list" where
  "space_encodings =
     [[CHR 0x09], [CHR 0x0A], [CHR 0x0B], [CHR 0x0C], [CHR 0x0D], [CHR 0x20],
      [CHR 0xC2, CHR 0x85], [CHR 0xC2, CHR 0xA0],
      [CHR 0xE1, CHR 0x9A, CHR 0x80],
      [CHR 0xE2, CHR 0x80, CHR 0x80], [CHR 0xE2, CHR 0x80, CHR 0x81],
      [CHR 0xE2, CHR 0x80, CHR 0x82], [CHR 0xE2, CHR 0x80, CHR 0x83],
      [CHR 0xE2, CHR 0x80, CHR 0x84], [CHR 0xE2, CHR 0x80, CHR 0x85],
      [CHR 0xE2, CHR 0x80, CHR 0x86], [CHR 0xE2, CHR 0x80, CHR 0x87],
      [CHR 0xE2, CHR 0x80, CHR 0x88], [CHR 0xE2, CHR 0x80, CHR 0x89],
      [CHR 0xE2, CHR 0x80, CHR 0x8A],
      [CHR 0xE2, CHR 0x80, CHR 0xA8], [CHR 0xE2, CHR 0x80, CHR 0xA9],
      [CHR 0xE2, CHR 0x80, CHR 0xAF],
      [CHR 0xE2, CHR 0x81, CHR 0x9F],
      [CHR 0xE3, CHR 0x80, CHR 0x80]]"

text \<open>The number of bytes of the rune of \<open>encs\<close> that \<open>s\<close> starts with, 0 if there is none.\<close>

definition leading_rune :: "string list \<Rightarrow> string \<Rightarrow> nat" where
  "leading_rune encs s =
     (case find (\<lambda>e. e \<noteq> [] \<and> prefix e s) encs of None \<Rightarrow> 0 | Some e \<Rightarrow> length e)"

function trim_runes :: "string list \<Rightarrow> string \<Rightarrow> string" where
  "trim_runes encs s =
     (if leading_rune encs s = 0 then s
      else trim_runes encs (drop (leading_rune encs s) s))"
  by pat_completeness auto
termination
proof (relation "measure (\<lambda>(encs, s). length s)")
  show "wf (measure (\<lambda>(encs, s). length s))" by simp
next
  fix encs :: "string list" and s :: string
  assume pos: "leading_rune encs s \<noteq> 0"
  then obtain e where "e \<noteq> []" "prefix e s"
    by (auto simp: leading_rune_def find_Some_iff split: option.splits)
  then have "s \<noteq> []" by auto
  with pos show "((encs, drop (leading_rune encs s) s), (encs, s))
      \<in> measure (\<lambda>(encs, s). length s)"
    by simp
qed

declare trim_runes.simps [simp del]

text \<open>
  \<^verbatim>\<open>strings.TrimSpace\<close>: all leading and all trailing white space runes removed. The
  trailing runes are found on the reversed bytes with the reversed encodings.
\<close>

definition strings_TrimSpace :: "string \<Rightarrow> string" where
  "strings_TrimSpace s =
     rev (trim_runes (map rev space_encodings) (rev (trim_runes space_encodings s)))"

text \<open>\<^verbatim>\<open>strings.ReplaceAll(s, old, new)\<close> for a one-byte \<open>old\<close> and a one-byte \<open>new\<close>.\<close>

definition strings_ReplaceAll :: "string \<Rightarrow> char \<Rightarrow> char \<Rightarrow> string" where
  "strings_ReplaceAll s old new = map (\<lambda>c. if c = old then new else c) s"

definition is_upper :: "char \<Rightarrow> bool" where
  "is_upper c \<longleftrightarrow> 65 \<le> (of_char c :: nat) \<and> (of_char c :: nat) \<le> 90"

definition is_lower :: "char \<Rightarrow> bool" where
  "is_lower c \<longleftrightarrow> 97 \<le> (of_char c :: nat) \<and> (of_char c :: nat) \<le> 122"

definition is_digit :: "char \<Rightarrow> bool" where
  "is_digit c \<longleftrightarrow> 48 \<le> (of_char c :: nat) \<and> (of_char c :: nat) \<le> 57"

text \<open>The class \<^verbatim>\<open>\w\<close> of Go's regular expressions: \<^verbatim>\<open>[0-9A-Za-z_]\<close>, ASCII only.\<close>

definition word_char :: "char \<Rightarrow> bool" where
  "word_char c \<longleftrightarrow> is_digit c \<or> is_upper c \<or> is_lower c \<or> c = CHR ''_''"

text \<open>
  \<^verbatim>\<open>regexp.MustCompile(`[^\w-.]`).ReplaceAllString(s, "")\<close>. The class matches one
  rune that is neither a word character nor \<^verbatim>\<open>-\<close> nor \<^verbatim>\<open>.\<close>; each match is
  replaced by the empty string. A rune outside ASCII is encoded in bytes from \<open>0x80\<close> on, and
  a byte that is no valid encoding is matched as U+FFFD, so on the bytes this keeps
  exactly the bytes of the complement class.
\<close>

definition invalidCharsRegex_keeps :: "char \<Rightarrow> bool" where
  "invalidCharsRegex_keeps c \<longleftrightarrow> word_char c \<or> c = CHR ''-'' \<or> c = CHR ''.''"

definition invalidCharsRegex_remove :: "string \<Rightarrow> string" where
  "invalidCharsRegex_remove s = filter invalidCharsRegex_keeps s"

text \<open>
  \<^verbatim>\<open>strings.ToLower\<close> on a string of ASCII bytes, which is what \<open>cleanFilePath\<close>
  passes to it: each of \<^verbatim>\<open>A\<close> to \<^verbatim>\<open>Z\<close> is moved by 32, every other byte is kept.
\<close>

definition strings_ToLower :: "string \<Rightarrow> string" where
  "strings_ToLower s = map (\<lambda>c. if is_upper c then char_of ((of_char c :: nat) + 32) else c) s"

text \<open>\<^verbatim>\<open>strings.TrimPrefix\<close> and \<^verbatim>\<open>strings.TrimSuffix\<close>.\<close>

definition strings_TrimPrefix :: "string \<Rightarrow> string \<Rightarrow> string" where
  "strings_TrimPrefix s p = (if prefix p s then drop (length p) s else s)"

definition strings_TrimSuffix :: "string \<Rightarrow> string \<Rightarrow> string" where
  "strings_TrimSuffix s p = (if suffix p s then take (length s - length p) s else s)"

text \<open>
  \<^verbatim>\<open>strings.Split(s, sep)\<close> for a one-byte separator: the pieces between the
  separators, one piece (the empty string) for the empty string.
\<close>

fun strings_Split :: "string \<Rightarrow> char \<Rightarrow> string list" where
  "strings_Split [] sep = [[]]"
| "strings_Split (c # cs) sep =
     (if c = sep then [] # strings_Split cs sep
      else (c # hd (strings_Split cs sep)) # tl (strings_Split cs sep))"

text \<open>\<^verbatim>\<open>strings.Join(elems, sep)\<close>.\<close>

fun strings_Join :: "string list \<Rightarrow> string \<Rightarrow> string" where
  "strings_Join [] sep = []"
| "strings_Join [x] sep = x"
| "strings_Join (x # y # ys) sep = x @ sep @ strings_Join (y # ys) sep"

text \<open>\<^verbatim>\<open>strings.Contains(s, substr)\<close>.\<close>

fun strings_Contains :: "string \<Rightarrow> string \<Rightarrow> bool" where
  "strings_Contains [] substr = (substr = [])"
| "strings_Contains (c # cs) substr = (prefix substr (c # cs) \<or> strings_Contains cs substr)"

section \<open>Tasks, stages and verdicts\<close>

text \<open>
  The stage names are declared as package-level string variables that are only compared
  and stored; they are modelled as an enumeration, in the order of their declaration.
\<close>

datatype stage =
    SeedlingStepProtobufs
  | SeedlingStepServer
  | SeedlingStepServerQualityCheck
  | SeedlingStepDockerfile
  | SeedlingStepDockerCompose
  | SeedlingStepClient
  | SeedlingStepExampleClientCall
  | SeedlingStepComplete

text \<open>The struct \<open>Seedling\<close>, with the identifier of the embedded \<open>DBRow\<close>.\<close>

record Seedling =
  ID :: int
  Name :: string
  Description :: string
  Step :: stage

record QualityCheck =
  Quality :: string
  Reason :: string
  Suggestions :: string

text \<open>The method \<open>Error\<close> of \<open>QualityCheck\<close>; \<open>None\<close> is Go's \<open>nil\<close>.\<close>

definition QualityCheck_Error :: "QualityCheck \<Rightarrow> string option" where
  "QualityCheck_Error qc =
     (if Quality qc = ''good'' then None
      else Some (''Quality check failed for this reason: '' @ Reason qc
                 @ ''. To improve the quality, we suggest you: '' @ Suggestions qc))"

section \<open>The world outside the orchestrator\<close>

text \<open>
  Every call that leaves the process is recorded as an event, in the order of the calls.
  \<open>EvOracle\<close> is the call of \<open>gpt\<close> for a candidate artifact, \<open>EvGate\<close> the call
  of \<open>gpt\<close> for a quality verdict, \<open>EvBuild\<close> the run of the stage's build command
  (command, arguments, working directory), \<open>EvDBUpdate\<close> an \<^verbatim>\<open>UPDATE seedlings SET step\<close>
  that succeeded and \<open>EvDBUpdateFailed\<close> one that returned an error.
\<close>

datatype event =
    EvGoDoc string
  | EvOracle string
  | EvGate string
  | EvWriteFile string string
  | EvChmod string
  | EvBuild string "string list" string
  | EvGitAdd
  | EvGitCommit
  | EvDBUpdate stage int
  | EvDBUpdateFailed stage int
  | EvDockerRun string
  | EvDockerInspect string

text \<open>
  \<open>buildCmd.CombinedOutput()\<close> waits for the command to exit and has no deadline:
  \<open>exec.Command\<close> is used, not \<open>exec.CommandContext\<close>. A command that never exits is
  \<open>BuildHangs\<close>; one that exits gives its combined output and the error (\<open>None\<close> for
  exit code 0).
\<close>

datatype build_result = BuildHangs | BuildExit string "string option"

text \<open>
  What the outside world answers during one pass of the loop of \<open>gptThread\<close>. An error
  is \<open>Inl\<close> or \<open>Some\<close> of its message. \<open>gate_completion a k\<close> is the answer to the
  quality gate's call number \<open>k\<close> within the pass. An answer of \<open>gpt\<close> is the error
  of \<open>CreateCompletion\<close> or the text of the first choice of its reply; a reply without
  choices, at which \<open>gpt\<close> panics, is not among the answers.
\<close>

record attempt =
  protoBufDefs_read :: "string + string list"
  grpcDefs_read :: "string + string list"
  nonStdImports :: "string list"
  goDoc :: "string \<Rightarrow> string \<times> bool"
  serverContents_read :: "string + string"
  completion :: "string + string"
  gate_completion :: "nat \<Rightarrow> string + string"
  writeFile_err :: "string option"
  chmod_err :: "string option"
  build :: build_result
  gitAdd_err :: "string option"
  gitCommit_err :: "string option"
  dbUpdate_ok :: bool

text \<open>
  The rest of the world: the platform constants, the prompt templates filled in by
  \<open>fmt.Sprintf\<close> (their fixed text plays no role here, so each is a function of its
  arguments; those of the first version of \<open>gptThread\<close> carry \<open>v1\<close> in their name), \<open>json.Unmarshal\<close> into a \<open>QualityCheck\<close>, the answers of each pass (numbered
  by the calls of \<open>gpt\<close> made by \<open>gptThread\<close> before it), and the two docker commands of the
  last stage (the combined output and the error of \<^verbatim>\<open>docker run\<close>, the error of
  \<^verbatim>\<open>docker inspect\<close>).
\<close>

record world =
  GOARCH :: string
  GOOS :: string
  protoPrompt_text :: "Seedling \<Rightarrow> string"
  serverPrompt_text :: "string \<Rightarrow> string \<Rightarrow> string \<Rightarrow> string \<Rightarrow> string"
  dockerfilePrompt_text :: "string \<Rightarrow> string"
  clientPrompt_text :: "string \<Rightarrow> string \<Rightarrow> string \<Rightarrow> string"
  qualityPrompt_text :: "string \<Rightarrow> string \<Rightarrow> string"
  protoPrompt_v1_text :: "Seedling \<Rightarrow> string"
  serverPrompt_v1_text :: "string \<Rightarrow> string"
  dockerfilePrompt_v1_text :: "string \<Rightarrow> string"
  json_Unmarshal :: "string \<Rightarrow> QualityCheck option"
  attempts :: "nat \<Rightarrow> attempt"
  dockerRun_out :: string
  dockerRun_err :: "string option"
  dockerInspect_err :: "string option"

section \<open>One attempt: \<open>runSeedling\<close>\<close>

text \<open>What a call of \<open>runSeedling\<close> gives back: output and error, unless it never returns.\<close>

datatype run_result = Hangs | Returns string "string option"

text \<open>
  The loop at the head of \<open>runSeedling\<close>, entered for the server stage only. Its counter
  \<open>errs\<close> is a Go \<open>int\<close> compared with \<open>==\<close>, so it is a 64-bit word here. The result
  \<open>None\<close> is the \<open>break\<close>; \<open>Some r\<close> is a \<open>return\<close>. The text appended to the
  parameter \<open>prompt\<close> before a rejection is returned changes the callee's copy only and
  is dropped.
\<close>

lemma quality_counter_decreases:
  "errs \<noteq> (5 :: 64 word) \<Longrightarrow> unat (4 - errs) < unat (5 - errs)"
proof -
  assume "errs \<noteq> (5 :: 64 word)"
  then have "(5 :: 64 word) - errs \<noteq> 0" by simp
  then have "unat ((5 :: 64 word) - errs - 1) < unat ((5 :: 64 word) - errs)"
    by (rule measure_unat)
  moreover have "(5 :: 64 word) - errs - 1 = 4 - errs" by simp
  ultimately show ?thesis by simp
qed

function qualityLoop ::
  "world \<Rightarrow> attempt \<Rightarrow> string \<Rightarrow> 64 word \<Rightarrow> event list \<times> run_result option" where
  "qualityLoop w a qualityPrompt errs =
     (if (5 :: 64 word) = errs then ([], Some (Returns [] (Some ''max errors exceeded'')))
      else
        (case gate_completion a (unat errs) of
           Inl err \<Rightarrow> ([EvGate qualityPrompt], Some (Returns [] (Some err)))
         | Inr out \<Rightarrow>
             (let qualityCheckOut = strings_TrimSpace out in
              case json_Unmarshal w qualityCheckOut of
                None \<Rightarrow>
                  (case qualityLoop w a qualityPrompt (errs + 1) of
                     (evs, r) \<Rightarrow> (EvGate qualityPrompt # evs, r))
              | Some qualityCheck \<Rightarrow>
                  if Quality qualityCheck \<noteq> ''good''
                  then ([EvGate qualityPrompt],
                        Some (Returns [] (QualityCheck_Error qualityCheck)))
                  else ([EvGate qualityPrompt], None))))"
  by pat_completeness auto
termination
  by (relation "measure (\<lambda>(w, a, qualityPrompt, errs). unat ((5 :: 64 word) - errs))")
     (simp_all add: quality_counter_decreases)

declare qualityLoop.simps [simp del]

text \<open>
  The fence and the white space around the candidate are removed:
  \<open>TrimPrefix\<close> of the fence with the content type, \<open>TrimSuffix\<close> of the closing fence,
  \<open>TrimSpace\<close>.
\<close>

definition stripFence :: "string \<Rightarrow> string \<Rightarrow> string" where
  "stripFence codeType gptOut =
     strings_TrimSpace
       (strings_TrimSuffix (strings_TrimPrefix gptOut (''```'' @ codeType)) ''```'')"

text \<open>The two git commands after a build that succeeded.\<close>

definition commitArtifact :: "attempt \<Rightarrow> event list \<times> run_result" where
  "commitArtifact a =
     (case gitAdd_err a of
        Some err \<Rightarrow> ([EvGitAdd], Returns [] (Some err))
      | None \<Rightarrow>
          (case gitCommit_err a of
             Some err \<Rightarrow> ([EvGitAdd, EvGitCommit], Returns [] (Some err))
           | None \<Rightarrow> ([EvGitAdd, EvGitCommit], Returns [] None)))"

text \<open>
  \<open>runSeedling\<close> after the quality loop: the empty candidate is refused, the file is
  written (and made executable for a shell script), the build command is run and the tree
  is committed.
\<close>

definition writeAndBuild ::
  "attempt \<Rightarrow> string \<Rightarrow> string \<Rightarrow> event \<Rightarrow> string \<Rightarrow> event list \<times> run_result" where
  "writeAndBuild a file codeType buildCmd gptOut =
     (let gptOut = stripFence codeType gptOut in
      if length gptOut = 0 then ([], Returns [] (Some ''no code to run''))
      else
        (case writeFile_err a of
           Some err \<Rightarrow> ([EvWriteFile file gptOut], Returns [] (Some err))
         | None \<Rightarrow>
             (if codeType = ''bash'' \<and> chmod_err a \<noteq> None
              then ([EvWriteFile file gptOut, EvChmod file], Returns [] (chmod_err a))
              else
                (let written = EvWriteFile file gptOut
                               # (if codeType = ''bash'' then [EvChmod file] else [])
                 in case build a of
                      BuildHangs \<Rightarrow> (written @ [buildCmd], Hangs)
                    | BuildExit byteOutput (Some err) \<Rightarrow>
                        (written @ [buildCmd], Returns byteOutput (Some err))
                    | BuildExit byteOutput None \<Rightarrow>
                        (written @ [buildCmd] @ fst (commitArtifact a),
                         snd (commitArtifact a))))))"

definition runSeedling ::
  "world \<Rightarrow> attempt \<Rightarrow> string \<Rightarrow> string \<Rightarrow> event \<Rightarrow> string \<Rightarrow> stage \<Rightarrow> string \<Rightarrow> string
     \<Rightarrow> event list \<times> run_result" where
  "runSeedling w a file codeType buildCmd gptOut step prompt description =
     (if step = SeedlingStepServer
      then
        (case qualityLoop w a (qualityPrompt_text w gptOut description) 0 of
           (evs, Some r) \<Rightarrow> (evs, r)
         | (evs, None) \<Rightarrow>
             (evs @ fst (writeAndBuild a file codeType buildCmd gptOut),
              snd (writeAndBuild a file codeType buildCmd gptOut)))
      else writeAndBuild a file codeType buildCmd gptOut)"

text \<open>
  \<open>runSeedling\<close> in the first version of the file: no quality gate and no check for
  an empty candidate.
\<close>

definition runSeedling_v1 ::
  "attempt \<Rightarrow> string \<Rightarrow> string \<Rightarrow> event \<Rightarrow> string \<Rightarrow> event list \<times> run_result" where
  "runSeedling_v1 a file codeType buildCmd gptOut =
     (let gptOut = stripFence codeType gptOut in
      case writeFile_err a of
        Some err \<Rightarrow> ([EvWriteFile file gptOut], Returns [] (Some err))
      | None \<Rightarrow>
          (case build a of
             BuildHangs \<Rightarrow> ([EvWriteFile file gptOut, buildCmd], Hangs)
           | BuildExit byteOutput (Some err) \<Rightarrow>
               ([EvWriteFile file gptOut, buildCmd], Returns byteOutput (Some err))
           | BuildExit byteOutput None \<Rightarrow>
               ([EvWriteFile file gptOut, buildCmd] @ fst (commitArtifact a),
                snd (commitArtifact a))))"

section \<open>The orchestrator: \<open>gptThread\<close>\<close>

text \<open>
  The local variables of \<open>gptThread\<close> that live across passes of its loop, with two
  fields of the model: \<open>calls\<close> counts the calls of \<open>gpt\<close> made by \<open>gptThread\<close> so
  far, \<open>trace\<close> holds the events so far. The counters \<open>step\<close> and \<open>errs\<close> stay below
  6 and 17, so they are natural numbers.
\<close>

record thread_state =
  step :: nat
  errs :: nat
  prompt :: string
  errMode :: bool
  dumpedModDocs :: bool
  calls :: nat
  trace :: "event list"

text \<open>What the \<open>switch\<close> over the stage sets for the rest of the pass.\<close>

record job =
  repoPath :: string
  codeType :: string
  cmdCmd :: string
  cmdArgs :: "string list"

text \<open>
  How \<open>gptThread\<close> ends; \<open>Running\<close> is the next pass of its loop. The last three
  ends belong to the first version of \<open>gptThread\<close>.
\<close>

datatype outcome =
    Running
  | Launched
  | DockerRunFailed
  | FatalExit
  | UnknownStep
  | ReadServerFailed
  | OracleFailed
  | MaxErrorsExceeded
  | DBUpdateFailed
  | BuildNeverReturned
  | IndexOutOfRange
  | NotABuildFailure
  | RunComplete
  | ReachedComplete

definition maxErrs :: nat where
  "maxErrs = 15"

definition steps :: "stage list" where
  "steps = [SeedlingStepProtobufs, SeedlingStepServer, SeedlingStepDockerfile,
            SeedlingStepExampleClientCall, SeedlingStepComplete]"

definition init_state :: thread_state where
  "init_state = \<lparr>step = 0, errs = 0, prompt = [], errMode = False, dumpedModDocs = False,
                 calls = 0, trace = []\<rparr>"

text \<open>\<open>filepath.Join\<close> on a Unix system, for components that need no cleaning.\<close>

definition filepath_Join :: "string list \<Rightarrow> string" where
  "filepath_Join elems = strings_Join (filter (\<lambda>e. e \<noteq> []) elems) ''/''"

text \<open>
  The loop over the imports of the server file, run once after the first failure of the
  server stage: documentation of every module that is not skipped is collected. The
  accumulator is \<open>allDocs\<close>, \<open>goDocErr\<close>, \<open>mods\<close> and the events.
\<close>

fun goDocs ::
  "attempt \<Rightarrow> string list \<Rightarrow> string \<times> bool \<times> nat \<times> event list
     \<Rightarrow> string \<times> bool \<times> nat \<times> event list" where
  "goDocs a [] acc = acc"
| "goDocs a (imp # imps) (allDocs, goDocErr, mods, evs) =
     (if strings_Contains imp ''protobuf'' \<or> strings_Contains imp ''logrus''
         \<or> strings_Contains imp ''grpc'' \<or> strings_Contains imp ''spew''
      then goDocs a imps (allDocs, goDocErr, mods, evs)
      else goDocs a imps
             (allDocs @ fst (goDoc a imp), goDocErr \<or> \<not> snd (goDoc a imp), mods + 1,
              evs @ [EvGoDoc imp]))"

definition dumpModDocs :: "attempt \<Rightarrow> thread_state \<Rightarrow> thread_state" where
  "dumpModDocs a st =
     (case goDocs a (nonStdImports a)
             (''\<newline>Here is some documentation that might be useful:\<newline>'', False, 0, []) of
        (allDocs, goDocErr, mods, evs) \<Rightarrow>
          st\<lparr>dumpedModDocs := True,
             trace := trace st @ evs,
             prompt := (if \<not> goDocErr \<and> mods > 0 then prompt st @ allDocs else prompt st)\<rparr>)"

text \<open>
  The \<open>switch\<close> over the stage. A stage entered after a failure (\<open>errMode\<close>) keeps the
  prompt and clears the flag; a stage entered for the first time builds its prompt. Each
  case ends with the opening fence of its content type.
\<close>

fun prepare ::
  "world \<Rightarrow> Seedling \<Rightarrow> attempt \<Rightarrow> stage \<Rightarrow> thread_state \<Rightarrow> outcome + thread_state \<times> job" where
  "prepare w s a SeedlingStepProtobufs st =
     (let st = (if \<not> errMode st then st\<lparr>prompt := protoPrompt_text w s @ ''\<newline>''\<rparr>
                else st\<lparr>errMode := False\<rparr>);
          st = st\<lparr>prompt := prompt st @ ''```protobuf\<newline>''\<rparr>;
          repoPath = filepath_Join [''protobufs'', Name s @ ''.proto'']
      in Inr (st, \<lparr>repoPath = repoPath, codeType = ''proto'', cmdCmd = ''protoc'',
                   cmdArgs = [''-I=.'', ''--go_out=.'', ''--go-grpc_out=.'', repoPath]\<rparr>))"
| "prepare w s a SeedlingStepServer st =
     (case protoBufDefs_read a of
        Inl err \<Rightarrow> Inl FatalExit
      | Inr protoBufDefs \<Rightarrow>
          (case grpcDefs_read a of
             Inl err \<Rightarrow> Inl FatalExit
           | Inr grpcDefs \<Rightarrow>
               (let st = (if \<not> errMode st
                          then st\<lparr>prompt := serverPrompt_text w (prompt st) (GOARCH w)
                                     (strings_Join protoBufDefs ''\<newline>'')
                                     (strings_Join grpcDefs ''\<newline>'')\<rparr>
                          else (let st = st\<lparr>errMode := False\<rparr>
                                in if \<not> dumpedModDocs st then dumpModDocs a st else st));
                    st = st\<lparr>prompt := prompt st @ ''```go\<newline>''\<rparr>
                in Inr (st, \<lparr>repoPath = filepath_Join [''server'', ''main.go''],
                             codeType = ''go'', cmdCmd = ''sh'',
                             cmdArgs = [''-c'',
                               ''go get ./... && go build -o /tmp/server ./server'']\<rparr>))))"
| "prepare w s a SeedlingStepDockerfile st =
     (let st = (if \<not> errMode st then st\<lparr>prompt := dockerfilePrompt_text w (prompt st)\<rparr>
                else st\<lparr>errMode := False\<rparr>);
          st = st\<lparr>prompt := prompt st @ ''```dockerfile\<newline>''\<rparr>
      in Inr (st, \<lparr>repoPath = filepath_Join [''Dockerfile''], codeType = ''dockerfile'',
                   cmdCmd = ''docker'',
                   cmdArgs = (if GOARCH w = ''arm64'' \<and> GOOS w = ''darwin''
                              then [''buildx'', ''build'', ''--platform'', ''linux/amd64'',
                                    ''-t'', Name s, ''.'']
                              else [''build'', ''-t'', Name s, ''.''])\<rparr>))"
| "prepare w s a SeedlingStepExampleClientCall st =
     (if \<not> errMode st
      then
        (case serverContents_read a of
           Inl err \<Rightarrow> Inl ReadServerFailed
         | Inr serverContents \<Rightarrow>
             (let st = st\<lparr>prompt := clientPrompt_text w (prompt st) (Name s) serverContents\<rparr>;
                  st = st\<lparr>prompt := prompt st @ ''```bash\<newline>''\<rparr>
              in Inr (st, \<lparr>repoPath = filepath_Join [''example-client-call.sh''],
                           codeType = ''bash'', cmdCmd = ''true'', cmdArgs = []\<rparr>)))
      else
        (let st = st\<lparr>errMode := False\<rparr>;
             st = st\<lparr>prompt := prompt st @ ''```bash\<newline>''\<rparr>
         in Inr (st, \<lparr>repoPath = filepath_Join [''example-client-call.sh''],
                      codeType = ''bash'', cmdCmd = ''true'', cmdArgs = []\<rparr>)))"
| "prepare w s a _ st = Inl UnknownStep"

text \<open>
  The last stage: the container is started and then inspected, once, by the identifier
  that \<^verbatim>\<open>docker run\<close> printed.
\<close>

definition launch :: "world \<Rightarrow> Seedling \<Rightarrow> thread_state \<Rightarrow> outcome \<times> thread_state" where
  "launch w s st =
     (case dockerRun_err w of
        Some err \<Rightarrow> (DockerRunFailed, st\<lparr>trace := trace st @ [EvDockerRun (Name s)]\<rparr>)
      | None \<Rightarrow>
          (case dockerInspect_err w of
             Some err \<Rightarrow>
               (FatalExit,
                st\<lparr>trace := trace st @ [EvDockerRun (Name s),
                                           EvDockerInspect (strings_TrimSpace (dockerRun_out w))]\<rparr>)
           | None \<Rightarrow>
               (Launched,
                st\<lparr>trace := trace st @ [EvDockerRun (Name s),
                                           EvDockerInspect (strings_TrimSpace (dockerRun_out w))]\<rparr>)))"

text \<open>The last \<open>n\<close> lines of the output, as the failure branch cuts them.\<close>

definition lastLines :: "nat \<Rightarrow> string \<Rightarrow> string" where
  "lastLines n output =
     (let lines = strings_Split output CHR ''\<newline>'';
          lines = (if length lines > n then drop (length lines - n) lines else lines)
      in strings_Join lines ''\<newline>'')"

text \<open>The text about the failure that goes into the prompt.\<close>

definition diagnostic :: "string \<Rightarrow> string \<Rightarrow> string" where
  "diagnostic output err =
     (let output = lastLines 25 output in if output = [] then err else output)"

text \<open>The branch for an attempt that returned an error.\<close>

definition on_failure ::
  "thread_state \<Rightarrow> string \<Rightarrow> string \<Rightarrow> string \<Rightarrow> outcome \<times> thread_state" where
  "on_failure st gptOutput output err =
     (let st = st\<lparr>errs := errs st + 1\<rparr> in
      if errs st > maxErrs then (MaxErrorsExceeded, st)
      else
        (Running,
         st\<lparr>prompt := prompt st @ gptOutput
                @ ''```\<newline>\<newline>That code didn't work.\<newline>\<newline>It got an error:\<newline>\<newline>```\<newline>''
                @ diagnostic output err @ ''```''
                @ ''\<newline>\<newline>Write a version that fixes that error.\<newline>'',
            errMode := True\<rparr>))"

text \<open>The branch for an attempt that returned no error: the next stage is stored first.\<close>

definition on_success ::
  "attempt \<Rightarrow> Seedling \<Rightarrow> thread_state \<Rightarrow> string \<Rightarrow> outcome \<times> thread_state" where
  "on_success a s st gptOutput =
     (if \<not> step st + 1 < length steps then (IndexOutOfRange, st)
      else if \<not> dbUpdate_ok a
      then (DBUpdateFailed,
            st\<lparr>trace := trace st @ [EvDBUpdateFailed (steps ! (step st + 1)) (ID s)]\<rparr>)
      else
        (Running,
         st\<lparr>trace := trace st @ [EvDBUpdate (steps ! (step st + 1)) (ID s)],
            prompt := prompt st @ ''\<newline>\<newline>'' @ gptOutput @ ''\<newline>\<newline>''
                @ ''```\<newline>\<newline>Great. That worked. Let's move on to the next step.\<newline>\<newline>'',
            step := step st + 1\<rparr>))"

text \<open>What follows the return of \<open>runSeedling\<close>: the result selects the branch.\<close>

definition settle ::
  "attempt \<Rightarrow> Seedling \<Rightarrow> thread_state \<Rightarrow> string \<Rightarrow> event list \<times> run_result
     \<Rightarrow> outcome \<times> thread_state" where
  "settle a s st gptOutput r =
     (case r of
        (evs, Hangs) \<Rightarrow> (BuildNeverReturned, st\<lparr>trace := trace st @ evs\<rparr>)
      | (evs, Returns output (Some err)) \<Rightarrow>
          on_failure (st\<lparr>trace := trace st @ evs\<rparr>) gptOutput output err
      | (evs, Returns output None) \<Rightarrow>
          on_success a s (st\<lparr>trace := trace st @ evs\<rparr>) gptOutput)"

text \<open>The state after the call of \<open>gpt\<close> for a candidate.\<close>

definition asked :: "thread_state \<Rightarrow> thread_state" where
  "asked st = st\<lparr>trace := trace st @ [EvOracle (prompt st)], calls := calls st + 1\<rparr>"

text \<open>
  The second half of a pass: the oracle is asked; a transport error ends the thread, a
  candidate goes through \<open>runSeedling\<close>.
\<close>

definition attempt_step ::
  "world \<Rightarrow> Seedling \<Rightarrow> attempt \<Rightarrow> job \<Rightarrow> thread_state \<Rightarrow> outcome \<times> thread_state" where
  "attempt_step w s a j st =
     (let file = filepath_Join [''repos'', ''default'', Name s, repoPath j];
          buildCmd = EvBuild (cmdCmd j) (cmdArgs j) (filepath_Join [''repos'', ''default'', Name s])
      in case completion a of
           Inl err \<Rightarrow> (OracleFailed, asked st)
         | Inr gptOutput \<Rightarrow>
             settle a s (asked st) gptOutput
               (runSeedling w a file (codeType j) buildCmd gptOutput (steps ! step st)
                  (prompt st) (Description s)))"

text \<open>One pass of the loop of \<open>gptThread\<close>.\<close>

definition gptThread_pass :: "world \<Rightarrow> Seedling \<Rightarrow> thread_state \<Rightarrow> outcome \<times> thread_state" where
  "gptThread_pass w s st =
     (if \<not> step st < length steps then (IndexOutOfRange, st)
      else if steps ! step st = SeedlingStepComplete then launch w s st
      else
        (case prepare w s (attempts w (calls st)) (steps ! step st) st of
           Inl stop \<Rightarrow> (stop, st)
         | Inr (st', j) \<Rightarrow> attempt_step w s (attempts w (calls st)) j st'))"

text \<open>
  A pass that goes on has either counted one more error, within the budget, or moved to
  the next stage; so the loop ends.
\<close>

lemma dumpModDocs_counters:
  "step (dumpModDocs a st) = step st \<and> errs (dumpModDocs a st) = errs st
   \<and> calls (dumpModDocs a st) = calls st"
  by (simp add: dumpModDocs_def split: prod.splits)

lemma prepare_counters:
  "prepare w s a sg st = Inr (st', j) \<Longrightarrow>
     step st' = step st \<and> errs st' = errs st \<and> calls st' = calls st"
  by (cases sg)
     (auto simp: Let_def dumpModDocs_counters split: sum.splits if_splits)

lemma on_failure_counters:
  "on_failure st gptOutput output err = (oc, st') \<Longrightarrow>
     step st' = step st \<and> errs st' = errs st + 1 \<and> calls st' = calls st
     \<and> (oc = Running \<or> oc = MaxErrorsExceeded)
     \<and> (oc = Running \<longleftrightarrow> errs st < maxErrs)"
  by (auto simp: on_failure_def Let_def split: if_splits)

lemma on_success_counters:
  "on_success a s st gptOutput = (Running, st') \<Longrightarrow>
     step st' = step st + 1 \<and> errs st' = errs st \<and> step st + 1 < length steps"
  by (auto simp: on_success_def split: if_splits)

lemma settle_counters:
  assumes "settle a s st gptOutput r = (Running, st')"
  shows "(step st' = step st \<and> errs st' = errs st + 1 \<and> errs st < maxErrs)
         \<or> (step st' = step st + 1 \<and> errs st' = errs st \<and> step st + 1 < length steps)"
proof -
  obtain evs res where r: "r = (evs, res)" by (cases r)
  show ?thesis
  proof (cases res)
    case Hangs
    with assms r show ?thesis by (simp add: settle_def)
  next
    case (Returns out err)
    show ?thesis
    proof (cases err)
      case None
      with assms r Returns
      have "on_success a s (st\<lparr>trace := trace st @ evs\<rparr>) gptOutput = (Running, st')"
        by (simp add: settle_def)
      from on_success_counters [OF this] show ?thesis by simp
    next
      case (Some e)
      with assms r Returns
      have "on_failure (st\<lparr>trace := trace st @ evs\<rparr>) gptOutput out e = (Running, st')"
        by (simp add: settle_def)
      from on_failure_counters [OF this] show ?thesis by simp
    qed
  qed
qed

lemma attempt_step_counters:
  assumes "attempt_step w s a j st = (Running, st')"
  shows "(step st' = step st \<and> errs st' = errs st + 1 \<and> errs st < maxErrs)
         \<or> (step st' = step st + 1 \<and> errs st' = errs st \<and> step st + 1 < length steps)"
proof (cases "completion a")
  case (Inl err)
  with assms show ?thesis by (simp add: attempt_step_def)
next
  case (Inr gptOutput)
  with assms settle_counters [of a s "asked st" gptOutput _ st'] show ?thesis
    by (simp add: attempt_step_def asked_def Let_def)
qed

lemma launch_stops: "fst (launch w s st) \<noteq> Running"
  by (simp add: launch_def split: option.splits)

lemma prepare_stops: "prepare w s a sg st = Inl stop \<Longrightarrow> stop \<noteq> Running"
  by (cases sg) (auto simp: Let_def split: sum.splits if_splits)

lemma gptThread_pass_counters:
  assumes "gptThread_pass w s st = (Running, st')"
  shows "(step st' = step st \<and> errs st' = errs st + 1 \<and> errs st < maxErrs)
         \<or> (step st' = step st + 1 \<and> errs st' = errs st \<and> step st + 1 < length steps)"
proof -
  from assms have in_range: "step st < length steps"
    by (auto simp: gptThread_pass_def split: if_splits)
  from assms launch_stops [of w s st] have not_last: "steps ! step st \<noteq> SeedlingStepComplete"
    by (auto simp: gptThread_pass_def in_range)
  show ?thesis
  proof (cases "prepare w s (attempts w (calls st)) (steps ! step st) st")
    case (Inl stop)
    with assms in_range not_last prepare_stops [OF Inl] show ?thesis
      by (simp add: gptThread_pass_def)
  next
    case (Inr p)
    obtain st1 j where p: "p = (st1, j)" by (cases p)
    with assms in_range not_last Inr
    have "attempt_step w s (attempts w (calls st)) j st1 = (Running, st')"
      by (simp add: gptThread_pass_def)
    from attempt_step_counters [OF this] prepare_counters [OF Inr [unfolded p]]
    show ?thesis by simp
  qed
qed

text \<open>\<open>gptThread\<close>: the loop, from the initial values of the local variables.\<close>

function gptThread_loop :: "world \<Rightarrow> Seedling \<Rightarrow> thread_state \<Rightarrow> outcome \<times> thread_state" where
  "gptThread_loop w s st =
     (if fst (gptThread_pass w s st) = Running
      then gptThread_loop w s (snd (gptThread_pass w s st))
      else gptThread_pass w s st)"
  by pat_completeness auto
termination
proof (relation "measure (\<lambda>(w, s, st). (maxErrs + 1 - errs st) + (length steps - step st))")
  show "wf (measure (\<lambda>(w, s, st). (maxErrs + 1 - errs st) + (length steps - step st)))"
    by simp
next
  fix w :: world and s :: Seedling and st :: thread_state
  assume "fst (gptThread_pass w s st) = Running"
  then have "gptThread_pass w s st = (Running, snd (gptThread_pass w s st))"
    by (cases "gptThread_pass w s st") simp
  from gptThread_pass_counters [OF this]
  show "((w, s, snd (gptThread_pass w s st)), (w, s, st))
      \<in> measure (\<lambda>(w, s, st). (maxErrs + 1 - errs st) + (length steps - step st))"
    by auto
qed

declare gptThread_loop.simps [simp del]

definition gptThread :: "world \<Rightarrow> Seedling \<Rightarrow> outcome \<times> thread_state" where
  "gptThread w s = gptThread_loop w s init_state"

section \<open>Reading the trace\<close>

text \<open>The stage that an event stores in the column \<open>step\<close> of the task's row, if any.\<close>

primrec stored_stage :: "event \<Rightarrow> stage list" where
  "stored_stage (EvGoDoc imp) = []"
| "stored_stage (EvOracle p) = []"
| "stored_stage (EvGate p) = []"
| "stored_stage (EvWriteFile f c) = []"
| "stored_stage (EvChmod f) = []"
| "stored_stage (EvBuild c args d) = []"
| "stored_stage EvGitAdd = []"
| "stored_stage EvGitCommit = []"
| "stored_stage (EvDBUpdate sg i) = [sg]"
| "stored_stage (EvDBUpdateFailed sg i) = []"
| "stored_stage (EvDockerRun n) = []"
| "stored_stage (EvDockerInspect n) = []"

text \<open>The stages stored by the events of a trace, in order.\<close>

definition stepWrites :: "event list \<Rightarrow> stage list" where
  "stepWrites evs = concat (map stored_stage evs)"

primrec is_godoc :: "event \<Rightarrow> bool" where
  "is_godoc (EvGoDoc imp) = True"
| "is_godoc (EvOracle p) = False"
| "is_godoc (EvGate p) = False"
| "is_godoc (EvWriteFile f c) = False"
| "is_godoc (EvChmod f) = False"
| "is_godoc (EvBuild c args d) = False"
| "is_godoc EvGitAdd = False"
| "is_godoc EvGitCommit = False"
| "is_godoc (EvDBUpdate sg i) = False"
| "is_godoc (EvDBUpdateFailed sg i) = False"
| "is_godoc (EvDockerRun n) = False"
| "is_godoc (EvDockerInspect n) = False"

primrec is_gate :: "event \<Rightarrow> bool" where
  "is_gate (EvGoDoc imp) = False"
| "is_gate (EvOracle p) = False"
| "is_gate (EvGate p) = True"
| "is_gate (EvWriteFile f c) = False"
| "is_gate (EvChmod f) = False"
| "is_gate (EvBuild c args d) = False"
| "is_gate EvGitAdd = False"
| "is_gate EvGitCommit = False"
| "is_gate (EvDBUpdate sg i) = False"
| "is_gate (EvDBUpdateFailed sg i) = False"
| "is_gate (EvDockerRun n) = False"
| "is_gate (EvDockerInspect n) = False"

text \<open>The events that change the artifact: its write and the change of its mode.\<close>

primrec is_write :: "event \<Rightarrow> bool" where
  "is_write (EvGoDoc imp) = False"
| "is_write (EvOracle p) = False"
| "is_write (EvGate p) = False"
| "is_write (EvWriteFile f c) = True"
| "is_write (EvChmod f) = True"
| "is_write (EvBuild c args d) = False"
| "is_write EvGitAdd = False"
| "is_write EvGitCommit = False"
| "is_write (EvDBUpdate sg i) = False"
| "is_write (EvDBUpdateFailed sg i) = False"
| "is_write (EvDockerRun n) = False"
| "is_write (EvDockerInspect n) = False"


section \<open>A small world for concrete runs\<close>

text \<open>
  A task \<open>echo\<close>, short prompt templates, a verdict parser that knows the two replies
  \<open>good\<close> and \<open>bad\<close>, and a pass in which every call succeeds.
\<close>

definition echo_seedling :: Seedling where
  "echo_seedling = \<lparr>ID = 1, Name = ''echo'', Description = ''echoes'',
                     Step = SeedlingStepProtobufs\<rparr>"

definition stub_unmarshal :: "string \<Rightarrow> QualityCheck option" where
  "stub_unmarshal t =
     (if t = ''good'' then Some \<lparr>Quality = ''good'', Reason = ''fine'', Suggestions = ''none''\<rparr>
      else if t = ''bad''
      then Some \<lparr>Quality = ''bad'', Reason = ''stub'', Suggestions = ''implement it''\<rparr>
      else None)"

definition good_attempt :: attempt where
  "good_attempt =
     \<lparr>protoBufDefs_read = Inr [''type A struct{}''], grpcDefs_read = Inr [],
      nonStdImports = [], goDoc = (\<lambda>imp. ([], True)),
      serverContents_read = Inr ''package main'',
      completion = Inr ''code'',
      gate_completion = (\<lambda>k. Inr ''good''),
      writeFile_err = None, chmod_err = None, build = BuildExit [] None,
      gitAdd_err = None, gitCommit_err = None, dbUpdate_ok = True\<rparr>"

definition stub_world :: "(nat \<Rightarrow> attempt) \<Rightarrow> world" where
  "stub_world atts =
     \<lparr>GOARCH = ''amd64'', GOOS = ''linux'',
      protoPrompt_text = (\<lambda>s. ''P''),
      serverPrompt_text = (\<lambda>p arch defs grpc. p @ ''S''),
      dockerfilePrompt_text = (\<lambda>p. p @ ''D''),
      clientPrompt_text = (\<lambda>p n c. p @ ''C''),
      qualityPrompt_text = (\<lambda>g d. ''Q'' @ g),
      protoPrompt_v1_text = (\<lambda>s. ''P''),
      serverPrompt_v1_text = (\<lambda>p. p @ ''S''),
      dockerfilePrompt_v1_text = (\<lambda>p. p @ ''D''),
      json_Unmarshal = stub_unmarshal,
      attempts = atts, dockerRun_out = ''c0ffee\<newline>'', dockerRun_err = None,
      dockerInspect_err = None\<rparr>"

text \<open>
  A task found at start-up with the stage \<open>SeedlingStepDockerfile\<close> stored, in a world
  where the first pass succeeds and the oracle cannot be reached in the second.
\<close>

definition resumed_seedling :: Seedling where
  "resumed_seedling = echo_seedling\<lparr>Step := SeedlingStepDockerfile\<rparr>"

definition outage_world :: world where
  "outage_world =
     stub_world (\<lambda>n. if n = 0 then good_attempt
                     else good_attempt\<lparr>completion := Inl ''503''\<rparr>)"

text \<open>A world in which the oracle cannot be reached at all.\<close>

definition dead_oracle_world :: world where
  "dead_oracle_world = stub_world (\<lambda>n. good_attempt\<lparr>completion := Inl ''503''\<rparr>)"

text \<open>A world in which the build command fails in every pass.\<close>

definition failing_build_world :: world where
  "failing_build_world =
     stub_world (\<lambda>n. good_attempt\<lparr>build := BuildExit ''syntax error'' (Some ''exit status 1'')\<rparr>)"

text \<open>A world in which the oracle answers with white space only.\<close>

definition blank_world :: world where
  "blank_world = stub_world (\<lambda>n. good_attempt\<lparr>completion := Inr ''  \<newline>''\<rparr>)"

section \<open>Reading the answers of the quality gate\<close>

text \<open>
  The answer to the gate's call number \<open>i\<close> of a pass is unparseable when the call
  returns a text that \<open>json.Unmarshal\<close> refuses; it carries the verdict \<open>qc\<close> when
  \<open>json.Unmarshal\<close> fills \<open>qc\<close> from it.
\<close>

definition unparseable :: "world \<Rightarrow> attempt \<Rightarrow> nat \<Rightarrow> bool" where
  "unparseable w a i =
     (case gate_completion a i of
        Inl err \<Rightarrow> False
      | Inr out \<Rightarrow> json_Unmarshal w (strings_TrimSpace out) = None)"

definition verdict :: "world \<Rightarrow> attempt \<Rightarrow> nat \<Rightarrow> QualityCheck option" where
  "verdict w a i =
     (case gate_completion a i of
        Inl err \<Rightarrow> None
      | Inr out \<Rightarrow> json_Unmarshal w (strings_TrimSpace out))"

text \<open>Whether a call of \<open>runSeedling\<close> returned an error.\<close>

primrec failed :: "run_result \<Rightarrow> bool" where
  "failed Hangs = False"
| "failed (Returns out err) = (err \<noteq> None)"

text \<open>
  A state of the loop at the server stage, and passes in which the gate's first answer
  is noise and the second a rejection, in which the second is an acceptance, and in which
  all answers are noise.
\<close>

definition server_state :: thread_state where
  "server_state = init_state\<lparr>step := 1, prompt := ''P''\<rparr>"


definition noisy_world :: world where
  "noisy_world =
     stub_world (\<lambda>n. good_attempt\<lparr>gate_completion :=
                        (\<lambda>k. if k = 0 then Inr ''{quality'' else Inr ''good'')\<rparr>)"

definition noise_world :: world where
  "noise_world = stub_world (\<lambda>n. good_attempt\<lparr>gate_completion := (\<lambda>k. Inr ''{quality'')\<rparr>)"

text \<open>A world in which the gate rejects at once, and one in which the build never exits.\<close>

definition strict_world :: world where
  "strict_world = stub_world (\<lambda>n. good_attempt\<lparr>gate_completion := (\<lambda>k. Inr ''bad'')\<rparr>)"

definition hanging_world :: world where
  "hanging_world = stub_world (\<lambda>n. good_attempt\<lparr>build := BuildHangs\<rparr>)"


section \<open>The first version of \<open>gptThread\<close>\<close>

text \<open>
  The file holds an earlier version of the orchestrator as well: three stages before
  \<open>SeedlingStepComplete\<close>, a budget of five errors, no quality gate, no check for an
  empty candidate, the last ten lines of the build output, and an inner loop that repeats
  the attempts of one stage. Its definitions carry \<open>v1\<close> in their name.
\<close>

definition maxErrs_v1 :: nat where
  "maxErrs_v1 = 5"

definition steps_v1 :: "stage list" where
  "steps_v1 = [SeedlingStepProtobufs, SeedlingStepServer, SeedlingStepDockerfile,
               SeedlingStepComplete]"

text \<open>The \<open>switch\<close> over the stage: every entry builds the prompt of the stage.\<close>

fun prepare_v1 :: "world \<Rightarrow> Seedling \<Rightarrow> stage \<Rightarrow> thread_state \<Rightarrow> outcome + thread_state \<times> job" where
  "prepare_v1 w s SeedlingStepProtobufs st =
     (let repoPath = filepath_Join [''protobufs'', Name s @ ''.proto'']
      in Inr (st\<lparr>prompt := protoPrompt_v1_text w s
                  @ ''\<newline>Use markdown and include only the file requested.\<newline>```proto''\<rparr>,
              \<lparr>repoPath = repoPath, codeType = ''proto'', cmdCmd = ''protoc'',
               cmdArgs = [''-I=.'', ''--go_out=.'', ''--go-grpc_out=.'', repoPath]\<rparr>))"
| "prepare_v1 w s SeedlingStepServer st =
     Inr (st\<lparr>prompt := serverPrompt_v1_text w (prompt st)\<rparr>,
          \<lparr>repoPath = filepath_Join [''server'', ''main.go''], codeType = ''go'',
           cmdCmd = ''true'', cmdArgs = []\<rparr>)"
| "prepare_v1 w s SeedlingStepDockerfile st =
     Inr (st\<lparr>prompt := dockerfilePrompt_v1_text w (prompt st)\<rparr>,
          \<lparr>repoPath = filepath_Join [''Dockerfile''], codeType = ''dockerfile'',
           cmdCmd = ''docker'',
           cmdArgs = [''buildx'', ''build'', ''--platform'', ''linux/amd64'', ''-t'', Name s,
                      ''.'']\<rparr>)"
| "prepare_v1 w s _ st = Inl UnknownStep"

text \<open>
  How a pass of the inner loop goes on: with another attempt of the stage, with the next
  stage, or not at all.
\<close>

datatype flow_v1 = Again | Next | End outcome

text \<open>The branch of the first version for an attempt that returned an error.\<close>

definition on_failure_v1 ::
  "job \<Rightarrow> thread_state \<Rightarrow> string \<Rightarrow> flow_v1 \<times> thread_state" where
  "on_failure_v1 j st output =
     (if output = [] then (End NotABuildFailure, st)
      else
        (let st = st\<lparr>errs := errs st + 1\<rparr> in
         if errs st > maxErrs_v1 then (End MaxErrorsExceeded, st)
         else
           (Again,
            st\<lparr>prompt := prompt st @ ''\<newline>\<newline>But it was wrong. I got an error: ''
                   @ lastLines 10 output
                   @ ''\<newline>\<newline>Change the file to fix it. We'll write the whole file again. Only code. No comments.''
                   @ ''\<newline>\<newline>'' @ ''```'' @ codeType j\<rparr>)))"

text \<open>The branch of the first version for an attempt that returned no error.\<close>

definition on_success_v1 ::
  "attempt \<Rightarrow> Seedling \<Rightarrow> thread_state \<Rightarrow> flow_v1 \<times> thread_state" where
  "on_success_v1 a s st =
     (if step st + 1 = length steps_v1 then (End RunComplete, st)
      else if \<not> step st + 1 < length steps_v1 then (End IndexOutOfRange, st)
      else if \<not> dbUpdate_ok a
      then (End DBUpdateFailed,
            st\<lparr>trace := trace st @ [EvDBUpdateFailed (steps_v1 ! (step st + 1)) (ID s)]\<rparr>)
      else
        (Next,
         st\<lparr>trace := trace st @ [EvDBUpdate (steps_v1 ! (step st + 1)) (ID s)],
            prompt := prompt st
                @ ''\<newline>\<newline>Great. That worked. Let's move on to the next step.\<newline>\<newline>'',
            step := step st + 1\<rparr>))"

text \<open>One pass of the inner loop.\<close>

definition attempt_v1 ::
  "world \<Rightarrow> Seedling \<Rightarrow> job \<Rightarrow> thread_state \<Rightarrow> flow_v1 \<times> thread_state" where
  "attempt_v1 w s j st =
     (let a = attempts w (calls st);
          file = filepath_Join [''repos'', ''default'', Name s, repoPath j];
          buildCmd = EvBuild (cmdCmd j) (cmdArgs j) (filepath_Join [''repos'', ''default'', Name s])
      in case completion a of
           Inl err \<Rightarrow> (End OracleFailed, asked st)
         | Inr gptOutput \<Rightarrow>
             (let st = (asked st)\<lparr>prompt := prompt st @ ''\<newline>\<newline>'' @ gptOutput @ ''\<newline>\<newline>''\<rparr>
              in case runSeedling_v1 a file (codeType j) buildCmd gptOutput of
                   (evs, Hangs) \<Rightarrow> (End BuildNeverReturned, st\<lparr>trace := trace st @ evs\<rparr>)
                 | (evs, Returns output (Some err)) \<Rightarrow>
                     on_failure_v1 j (st\<lparr>trace := trace st @ evs\<rparr>) output
                 | (evs, Returns output None) \<Rightarrow>
                     on_success_v1 a s (st\<lparr>trace := trace st @ evs\<rparr>)))"

lemma on_failure_v1_counters:
  "on_failure_v1 j st out = (fl, st') \<Longrightarrow>
     step st' = step st \<and> calls st' = calls st \<and> trace st' = trace st
     \<and> fl \<noteq> Next \<and> (fl = Again \<longrightarrow> errs st' = errs st + 1 \<and> errs st < maxErrs_v1)"
  by (auto simp: on_failure_v1_def Let_def split: if_splits)

lemma on_success_v1_counters:
  "on_success_v1 a s st = (fl, st') \<Longrightarrow>
     fl \<noteq> Again \<and> errs st' = errs st
     \<and> (fl = Next \<longrightarrow> step st' = step st + 1 \<and> step st + 1 < length steps_v1)"
  by (auto simp: on_success_v1_def split: if_splits)

lemma attempt_v1_counters:
  assumes "attempt_v1 w s j st = (fl, st')"
  shows "(fl = Again \<longrightarrow> errs st' = errs st + 1 \<and> errs st < maxErrs_v1 \<and> step st' = step st)
         \<and> (fl = Next \<longrightarrow> step st' = step st + 1 \<and> step st + 1 < length steps_v1)"
proof (cases "completion (attempts w (calls st))")
  case (Inl err)
  with assms show ?thesis by (auto simp: attempt_v1_def)
next
  case (Inr g)
  let ?st = "(asked st)\<lparr>prompt := prompt st @ ''\<newline>\<newline>'' @ g @ ''\<newline>\<newline>''\<rparr>"
  obtain evs res where run:
    "runSeedling_v1 (attempts w (calls st))
       (filepath_Join [''repos'', ''default'', Name s, repoPath j]) (codeType j)
       (EvBuild (cmdCmd j) (cmdArgs j) (filepath_Join [''repos'', ''default'', Name s])) g
     = (evs, res)"
    by (cases "runSeedling_v1 (attempts w (calls st))
       (filepath_Join [''repos'', ''default'', Name s, repoPath j]) (codeType j)
       (EvBuild (cmdCmd j) (cmdArgs j) (filepath_Join [''repos'', ''default'', Name s])) g")
  show ?thesis
  proof (cases res)
    case Hangs
    with assms Inr run show ?thesis by (auto simp: attempt_v1_def)
  next
    case (Returns out err)
    show ?thesis
    proof (cases err)
      case None
      with assms Inr run Returns
      have "on_success_v1 (attempts w (calls st)) s (?st\<lparr>trace := trace ?st @ evs\<rparr>)
          = (fl, st')"
        by (simp add: attempt_v1_def)
      from on_success_v1_counters [OF this] show ?thesis by (simp add: asked_def)
    next
      case (Some e)
      with assms Inr run Returns
      have "on_failure_v1 j (?st\<lparr>trace := trace ?st @ evs\<rparr>) out = (fl, st')"
        by (simp add: attempt_v1_def)
      from on_failure_v1_counters [OF this] show ?thesis by (simp add: asked_def)
    qed
  qed
qed

text \<open>The inner loop: the attempts of one stage.\<close>

function retry_v1 :: "world \<Rightarrow> Seedling \<Rightarrow> job \<Rightarrow> thread_state \<Rightarrow> flow_v1 \<times> thread_state" where
  "retry_v1 w s j st =
     (if fst (attempt_v1 w s j st) = Again
      then retry_v1 w s j (snd (attempt_v1 w s j st))
      else attempt_v1 w s j st)"
  by pat_completeness auto
termination
proof (relation "measure (\<lambda>(w, s, j, st). maxErrs_v1 + 1 - errs st)")
  show "wf (measure (\<lambda>(w, s, j, st). maxErrs_v1 + 1 - errs st))"
    by simp
next
  fix w :: world and s :: Seedling and j :: job and st :: thread_state
  assume "fst (attempt_v1 w s j st) = Again"
  then have "attempt_v1 w s j st = (Again, snd (attempt_v1 w s j st))"
    by (cases "attempt_v1 w s j st") simp
  from attempt_v1_counters [OF this]
  show "((w, s, j, snd (attempt_v1 w s j st)), (w, s, j, st))
      \<in> measure (\<lambda>(w, s, j, st). maxErrs_v1 + 1 - errs st)"
    by auto
qed

declare retry_v1.simps [simp del]

lemma retry_v1_next:
  "fst (retry_v1 w s j st) = Next \<Longrightarrow>
     step (snd (retry_v1 w s j st)) = step st + 1 \<and> step st + 1 < length steps_v1"
proof (induction w s j st rule: retry_v1.induct)
  case (1 w s j st)
  obtain fl st' where a: "attempt_v1 w s j st = (fl, st')"
    by (cases "attempt_v1 w s j st")
  show ?case
  proof (cases "fl = Again")
    case True
    with a have r: "retry_v1 w s j st = retry_v1 w s j st'"
      by (subst retry_v1.simps) simp
    from True a have "fst (attempt_v1 w s j st) = Again" by simp
    from "1.IH" [OF this] "1.prems" r a attempt_v1_counters [OF a] True
    show ?thesis by simp
  next
    case False
    with a have r: "retry_v1 w s j st = (fl, st')"
      by (subst retry_v1.simps) simp
    with "1.prems" attempt_v1_counters [OF a] show ?thesis by simp
  qed
qed

lemma prepare_v1_step: "prepare_v1 w s sg st = Inr (st', j) \<Longrightarrow> step st' = step st"
  by (cases sg) (auto simp: Let_def)

text \<open>The outer loop: one stage after the other.\<close>

function gptThread_v1_loop ::
  "world \<Rightarrow> Seedling \<Rightarrow> thread_state \<Rightarrow> flow_v1 \<times> thread_state" where
  "gptThread_v1_loop w s st =
     (if \<not> step st < length steps_v1 then (End IndexOutOfRange, st)
      else if steps_v1 ! step st = SeedlingStepComplete then (End ReachedComplete, st)
      else
        (case prepare_v1 w s (steps_v1 ! step st) st of
           Inl stop \<Rightarrow> (End stop, st)
         | Inr (st', j) \<Rightarrow>
             (if fst (retry_v1 w s j st') = Next
              then gptThread_v1_loop w s (snd (retry_v1 w s j st'))
              else retry_v1 w s j st')))"
  by pat_completeness auto
termination
proof (relation "measure (\<lambda>(w, s, st). length steps_v1 - step st)")
  show "wf (measure (\<lambda>(w, s, st). length steps_v1 - step st))"
    by simp
next
  fix w :: world and s :: Seedling and st st' :: thread_state and j :: job
    and p :: "thread_state \<times> job"
  assume "prepare_v1 w s (steps_v1 ! step st) st = Inr p" and "(st', j) = p"
    and "fst (retry_v1 w s j st') = Next"
  then show "((w, s, snd (retry_v1 w s j st')), (w, s, st))
      \<in> measure (\<lambda>(w, s, st). length steps_v1 - step st)"
    using retry_v1_next [of w s j st'] prepare_v1_step [of w s "steps_v1 ! step st" st st' j]
    by auto
qed

declare gptThread_v1_loop.simps [simp del]

definition gptThread_v1 :: "world \<Rightarrow> Seedling \<Rightarrow> flow_v1 \<times> thread_state" where
  "gptThread_v1 w s = gptThread_v1_loop w s init_state"

text \<open>A world in which the build command fails in every pass without any output.\<close>

definition silent_failure_world :: world where
  "silent_failure_world =
     stub_world (\<lambda>n. good_attempt\<lparr>build := BuildExit [] (Some ''exit status 1'')\<rparr>)"



section \<open>Sanitizing the task name\<close>

text \<open>
  \<open>cleanFilePath\<close> in the version with the quality gate and in \<^verbatim>\<open>garden/main.go\<close>:
  the name is trimmed, spaces become underscores.
\<close>

definition cleanFilePath :: "string \<Rightarrow> string" where
  "cleanFilePath file =
     (let cleanedPath = strings_ReplaceAll (strings_TrimSpace file) CHR '' '' CHR ''_'';
          cleanedPath = invalidCharsRegex_remove cleanedPath
      in strings_ToLower cleanedPath)"

text \<open>The earliest version with a repository per task: no trimming.\<close>

definition cleanFilePath_untrimmed :: "string \<Rightarrow> string" where
  "cleanFilePath_untrimmed file =
     (let cleanedPath = strings_ReplaceAll file CHR '' '' CHR ''_'';
          cleanedPath = invalidCharsRegex_remove cleanedPath
      in strings_ToLower cleanedPath)"

text \<open>The version of the session prototype: spaces become hyphens.\<close>

definition cleanFilePath_hyphen :: "string \<Rightarrow> string" where
  "cleanFilePath_hyphen filePath =
     (let cleanedPath = strings_ReplaceAll filePath CHR '' '' CHR ''-'';
          cleanedPath = invalidCharsRegex_remove cleanedPath
      in strings_ToLower cleanedPath)"

text \<open>The safe file name alphabet: lower case letters, digits, hyphen, underscore, dot.\<close>

definition safe_char :: "char \<Rightarrow> bool" where
  "safe_char c \<longleftrightarrow>
     is_lower c \<or> is_digit c \<or> c = CHR ''-'' \<or> c = CHR ''_'' \<or> c = CHR ''.''"

section \<open>Properties of the sanitizer\<close>

lemma lower_of_upper: "is_upper c \<Longrightarrow> is_lower (char_of ((of_char c :: nat) + 32))"
  by (simp add: is_upper_def is_lower_def)

lemma kept_lowered_safe:
  "invalidCharsRegex_keeps c \<Longrightarrow>
     safe_char (if is_upper c then char_of ((of_char c :: nat) + 32) else c)"
  using lower_of_upper [of c]
  by (auto simp: invalidCharsRegex_keeps_def word_char_def safe_char_def)

lemma lowered_kept_all_safe:
  "list_all safe_char (strings_ToLower (invalidCharsRegex_remove s))"
  by (induction s)
     (simp_all add: strings_ToLower_def invalidCharsRegex_remove_def kept_lowered_safe)

text \<open>
  C10. Every character of the sanitized name is a lower case letter, a digit, a hyphen, an
  underscore or a dot, whatever the input name is. This holds for the three versions of
  \<open>cleanFilePath\<close> in the repository; so no space and no upper case letter survives.
\<close>

theorem cleanFilePath_safe_alphabet:
  "list_all safe_char (cleanFilePath name)
   \<and> list_all safe_char (cleanFilePath_untrimmed name)
   \<and> list_all safe_char (cleanFilePath_hyphen name)"
  by (simp add: cleanFilePath_def cleanFilePath_untrimmed_def cleanFilePath_hyphen_def
      lowered_kept_all_safe)

theorem cleanFilePath_safe_alphabet_witness:
  "cleanFilePath ''  My Svc!.v2 '' = ''my_svc.v2''
   \<and> list_all safe_char (cleanFilePath ''  My Svc!.v2 '')
   \<and> list_all safe_char (cleanFilePath_hyphen ''  My Svc!.v2 '')"
proof -
  have "cleanFilePath ''  My Svc!.v2 '' = ''my_svc.v2''"
    by code_simp
  then show ?thesis
    using cleanFilePath_safe_alphabet [of "''  My Svc!.v2 ''"] by simp
qed

section \<open>What each part of a pass adds to the trace\<close>

lemma stepWrites_append: "stepWrites (xs @ ys) = stepWrites xs @ stepWrites ys"
  by (simp add: stepWrites_def)

lemma stepWrites_godoc: "list_all is_godoc evs \<Longrightarrow> stepWrites evs = []"
proof (induction evs)
  case Nil
  show ?case by (simp add: stepWrites_def)
next
  case (Cons e evs)
  then show ?case by (cases e) (simp_all add: stepWrites_def)
qed

lemma stepWrites_gate: "list_all is_gate evs \<Longrightarrow> stepWrites evs = []"
proof (induction evs)
  case Nil
  show ?case by (simp add: stepWrites_def)
next
  case (Cons e evs)
  then show ?case by (cases e) (simp_all add: stepWrites_def)
qed

lemma goDocs_events:
  "\<exists>new. snd (snd (snd (goDocs a imps (allDocs, goDocErr, mods, evs)))) = evs @ new
         \<and> list_all is_godoc new"
proof (induction imps arbitrary: allDocs goDocErr mods evs)
  case Nil
  show ?case by simp
next
  case (Cons imp imps)
  show ?case
  proof (cases "strings_Contains imp ''protobuf'' \<or> strings_Contains imp ''logrus''
         \<or> strings_Contains imp ''grpc'' \<or> strings_Contains imp ''spew''")
    case True
    with Cons.IH [of allDocs goDocErr mods evs] show ?thesis by simp
  next
    case False
    from Cons.IH [of "allDocs @ fst (goDoc a imp)" "goDocErr \<or> \<not> snd (goDoc a imp)"
        "mods + 1" "evs @ [EvGoDoc imp]"]
    obtain new where
      "snd (snd (snd (goDocs a imps (allDocs @ fst (goDoc a imp),
          goDocErr \<or> \<not> snd (goDoc a imp), mods + 1, evs @ [EvGoDoc imp]))))
        = (evs @ [EvGoDoc imp]) @ new" "list_all is_godoc new"
      by blast
    with False show ?thesis
      by (intro exI [of _ "EvGoDoc imp # new"]) simp
  qed
qed

lemma dumpModDocs_trace:
  "\<exists>new. trace (dumpModDocs a st) = trace st @ new \<and> list_all is_godoc new"
proof -
  obtain allDocs goDocErr mods evs where g:
    "goDocs a (nonStdImports a)
       (''\<newline>Here is some documentation that might be useful:\<newline>'', False, 0, [])
     = (allDocs, goDocErr, mods, evs)"
    by (metis prod_cases4)
  from goDocs_events [of a "nonStdImports a"
      "''\<newline>Here is some documentation that might be useful:\<newline>''" False 0 "[]"] g
  have "list_all is_godoc evs" by simp
  with g show ?thesis by (simp add: dumpModDocs_def)
qed

lemma prepare_trace:
  assumes "prepare w s a sg st = Inr (st', j)"
  shows "\<exists>new. trace st' = trace st @ new \<and> list_all is_godoc new"
proof (cases sg)
  case SeedlingStepServer
  with assms dumpModDocs_trace [of a "st\<lparr>errMode := False\<rparr>"] show ?thesis
    by (auto simp: Let_def split: sum.splits if_splits)
qed (use assms in \<open>auto simp: Let_def split: sum.splits if_splits\<close>)

lemma qualityLoop_shape:
  "list_all is_gate (fst (qualityLoop w a qp n))
   \<and> (snd (qualityLoop w a qp n) = None
      \<or> (\<exists>err. snd (qualityLoop w a qp n) = Some (Returns [] (Some err))))"
proof (induction w a qp n rule: qualityLoop.induct)
  case (1 w a qualityPrompt errs)
  show ?case
  proof (cases "(5 :: 64 word) = errs")
    case True
    then show ?thesis by (subst (1 2 3) qualityLoop.simps) simp
  next
    case False
    show ?thesis
    proof (cases "gate_completion a (unat errs)")
      case (Inl err)
      with False show ?thesis by (subst (1 2 3) qualityLoop.simps) simp
    next
      case (Inr out)
      show ?thesis
      proof (cases "json_Unmarshal w (strings_TrimSpace out)")
        case None
        from "1.IH" [OF False Inr refl None] False Inr None show ?thesis
          by (subst (1 2 3) qualityLoop.simps) (auto split: prod.splits)
      next
        case (Some qc)
        with False Inr show ?thesis
          by (subst (1 2 3) qualityLoop.simps) (auto simp: QualityCheck_Error_def)
      qed
    qed
  qed
qed

lemma commitArtifact_shape:
  "stepWrites (fst (commitArtifact a)) = []
   \<and> (\<exists>err. snd (commitArtifact a) = Returns [] err)"
  by (simp add: commitArtifact_def stepWrites_def split: option.splits)

lemma writeAndBuild_stepWrites:
  "stepWrites (fst (writeAndBuild a file ct (EvBuild c args d) g)) = []"
proof -
  obtain err where "stepWrites (fst (commitArtifact a)) = []"
    "snd (commitArtifact a) = Returns [] err"
    using commitArtifact_shape [of a] by blast
  then show ?thesis
    by (simp add: writeAndBuild_def Let_def stepWrites_append
        split: option.splits build_result.splits)
       (simp add: stepWrites_def)
qed

lemma runSeedling_stepWrites:
  "stepWrites (fst (runSeedling w a file ct (EvBuild c args d) g sg p descr)) = []"
proof (cases "sg = SeedlingStepServer")
  case False
  then show ?thesis by (simp add: runSeedling_def writeAndBuild_stepWrites)
next
  case True
  obtain evs r where q: "qualityLoop w a (qualityPrompt_text w g descr) 0 = (evs, r)"
    by (cases "qualityLoop w a (qualityPrompt_text w g descr) 0")
  with qualityLoop_shape [of w a "qualityPrompt_text w g descr" 0]
  have "stepWrites evs = []" by (simp add: stepWrites_gate)
  with True q show ?thesis
    by (cases r) (simp_all add: runSeedling_def stepWrites_append writeAndBuild_stepWrites)
qed

section \<open>The stages stored by a run\<close>

lemma take_next_stage:
  "Suc n < length steps \<Longrightarrow> take (Suc n) (tl steps) = take n (tl steps) @ [steps ! Suc n]"
  by (simp add: take_Suc_conv_app_nth nth_tl)

text \<open>The stored stages so far are the stages after the first one, up to the current one.\<close>

definition stored_in_order :: "thread_state \<Rightarrow> bool" where
  "stored_in_order st \<longleftrightarrow>
     stepWrites (trace st) = take (step st) (tl steps) \<and> step st < length steps"

lemma on_failure_stored:
  "stored_in_order st \<Longrightarrow> stored_in_order (snd (on_failure st g out e))"
  by (simp add: on_failure_def Let_def stored_in_order_def)

lemma on_success_stored:
  "stored_in_order st \<Longrightarrow> stored_in_order (snd (on_success a s st g))"
  by (simp add: on_success_def stored_in_order_def stepWrites_append take_next_stage)
     (simp add: stepWrites_def)

lemma stored_in_order_extend:
  "stored_in_order st \<Longrightarrow> stepWrites evs = [] \<Longrightarrow>
     stored_in_order (st\<lparr>trace := trace st @ evs\<rparr>)"
  by (simp add: stored_in_order_def stepWrites_append)

lemma settle_stored:
  assumes "stored_in_order st" and "stepWrites (fst r) = []"
  shows "stored_in_order (snd (settle a s st g r))"
proof -
  obtain evs res where r: "r = (evs, res)" by (cases r)
  with assms have ext: "stored_in_order (st\<lparr>trace := trace st @ evs\<rparr>)"
    by (simp add: stored_in_order_extend)
  show ?thesis
  proof (cases res)
    case Hangs
    with r ext show ?thesis by (simp add: settle_def)
  next
    case (Returns out err)
    with r ext show ?thesis
      by (cases err) (simp_all add: settle_def on_failure_stored on_success_stored)
  qed
qed

lemma asked_stored: "stored_in_order st \<Longrightarrow> stored_in_order (asked st)"
  by (simp add: asked_def stored_in_order_def stepWrites_append) (simp add: stepWrites_def)

lemma attempt_step_stored:
  assumes "stored_in_order st"
  shows "stored_in_order (snd (attempt_step w s a j st))"
proof (cases "completion a")
  case (Inl err)
  with assms show ?thesis by (simp add: attempt_step_def asked_stored)
next
  case (Inr g)
  with assms show ?thesis
    by (simp add: attempt_step_def Let_def settle_stored asked_stored runSeedling_stepWrites)
qed

lemma prepare_stored:
  assumes "prepare w s a sg st = Inr (st', j)" and "stored_in_order st"
  shows "stored_in_order st'"
proof -
  from prepare_trace [OF assms(1)] obtain new where
    "trace st' = trace st @ new" "list_all is_godoc new" by blast
  with assms(2) prepare_counters [OF assms(1)] show ?thesis
    by (simp add: stored_in_order_def stepWrites_append stepWrites_godoc)
qed

lemma launch_stored: "stored_in_order st \<Longrightarrow> stored_in_order (snd (launch w s st))"
  by (simp add: launch_def stored_in_order_def stepWrites_append split: option.splits)
     (simp add: stepWrites_def)

lemma gptThread_pass_stored:
  assumes "stored_in_order st"
  shows "stored_in_order (snd (gptThread_pass w s st))"
proof (cases "prepare w s (attempts w (calls st)) (steps ! step st) st")
  case (Inl stop)
  with assms show ?thesis by (simp add: gptThread_pass_def launch_stored)
next
  case (Inr p)
  obtain st1 j where p: "p = (st1, j)" by (cases p)
  from prepare_stored [OF Inr [unfolded p] assms] Inr p assms show ?thesis
    by (simp add: gptThread_pass_def launch_stored attempt_step_stored)
qed

lemma gptThread_loop_stored:
  "stored_in_order st \<Longrightarrow> stored_in_order (snd (gptThread_loop w s st))"
proof (induction w s st rule: gptThread_loop.induct)
  case (1 w s st)
  show ?case
  proof (cases "fst (gptThread_pass w s st) = Running")
    case True
    from "1.IH" [OF True gptThread_pass_stored [OF "1.prems"]] True show ?thesis
      by (subst gptThread_loop.simps) simp
  next
    case False
    with gptThread_pass_stored [OF "1.prems"] show ?thesis
      by (subst gptThread_loop.simps) simp
  qed
qed

lemma init_stored: "stored_in_order init_state"
  by (simp add: stored_in_order_def init_state_def stepWrites_def steps_def)

text \<open>
  C1, as amended. A run of \<open>gptThread\<close> starts at the first stage, whatever stage is
  stored for the task, and the stages it stores are, in this order, the first \<open>k\<close> of
  \<open>SeedlingStepServer\<close>, \<open>SeedlingStepDockerfile\<close>, \<open>SeedlingStepExampleClientCall\<close>,
  \<open>SeedlingStepComplete\<close>, where \<open>k\<close> is the number of stages the run has completed: behind
  \<open>SeedlingStepProtobufs\<close>, the stage stored when the task is created, they are a prefix
  of the fixed order, each one position after the one before.
\<close>

theorem gptThread_stores_stages_in_order:
  "stepWrites (trace (snd (gptThread w s)))
     = take (step (snd (gptThread w s)))
         [SeedlingStepServer, SeedlingStepDockerfile, SeedlingStepExampleClientCall,
          SeedlingStepComplete]
   \<and> prefix (SeedlingStepProtobufs # stepWrites (trace (snd (gptThread w s)))) steps"
proof -
  have ord: "stored_in_order (snd (gptThread w s))"
    by (simp add: gptThread_def gptThread_loop_stored init_stored)
  then have w: "stepWrites (trace (snd (gptThread w s)))
      = take (step (snd (gptThread w s))) (tl steps)"
    by (simp add: stored_in_order_def)
  have "SeedlingStepProtobufs # take (step (snd (gptThread w s))) (tl steps)
      = take (Suc (step (snd (gptThread w s)))) steps"
    by (simp add: steps_def)
  then have "prefix (SeedlingStepProtobufs # stepWrites (trace (snd (gptThread w s)))) steps"
    by (simp only: w take_is_prefix)
  with w show ?thesis by (simp add: steps_def)
qed

lemma outage_first_pass:
  "fst (gptThread_pass outage_world resumed_seedling init_state) = Running"
  by code_simp

lemma outage_second_pass:
  "fst (gptThread_pass outage_world resumed_seedling
          (snd (gptThread_pass outage_world resumed_seedling init_state))) = OracleFailed"
  by code_simp

lemma outage_step:
  "step (snd (gptThread_pass outage_world resumed_seedling
          (snd (gptThread_pass outage_world resumed_seedling init_state)))) = 1"
  by code_simp

lemma outage_run:
  "gptThread outage_world resumed_seedling
     = gptThread_pass outage_world resumed_seedling
         (snd (gptThread_pass outage_world resumed_seedling init_state))"
  by (simp add: gptThread_def gptThread_loop.simps [of _ _ init_state]
      gptThread_loop.simps [of _ _ "snd (gptThread_pass outage_world resumed_seedling init_state)"]
      outage_first_pass outage_second_pass)

theorem gptThread_stores_stages_in_order_witness:
  "stepWrites (trace (snd (gptThread outage_world resumed_seedling))) = [SeedlingStepServer]
   \<and> prefix (SeedlingStepProtobufs
        # stepWrites (trace (snd (gptThread outage_world resumed_seedling)))) steps"
  using gptThread_stores_stages_in_order [of outage_world resumed_seedling]
  by (simp add: outage_run outage_step steps_def)

text \<open>
  C1 as stated fails for a task that is resumed at start-up: the stage
  \<open>SeedlingStepDockerfile\<close> is stored, the run starts at the first stage all the same, and
  its first write puts \<open>SeedlingStepServer\<close> into the row. Neither the stages written by
  the run nor the stages that the row holds one after the other are a prefix of the fixed
  order.
\<close>

theorem resumed_task_steps_back:
  "Step resumed_seedling = SeedlingStepDockerfile
   \<and> stepWrites (trace (snd (gptThread outage_world resumed_seedling))) = [SeedlingStepServer]
   \<and> \<not> prefix (stepWrites (trace (snd (gptThread outage_world resumed_seedling)))) steps
   \<and> \<not> prefix (Step resumed_seedling
          # stepWrites (trace (snd (gptThread outage_world resumed_seedling)))) steps"
proof -
  have "stepWrites (trace (snd (gptThread outage_world resumed_seedling)))
      = [SeedlingStepServer]"
    by (simp add: outage_run) code_simp
  then show ?thesis
    by (simp add: resumed_seedling_def echo_seedling_def steps_def)
qed

section \<open>The oracle cannot be reached\<close>

text \<open>
  C5. When the call of the oracle for a candidate returns an error, the thread ends in
  that pass: the state is the one after the call, the error counter and the stage are
  unchanged, and what the pass has added to the trace is the reading of module
  documentation (if any) and the call itself. Nothing is written, built, committed or
  stored after it, and the oracle is not asked again.
\<close>

theorem oracle_transport_error_aborts:
  assumes "step st < length steps" and "steps ! step st \<noteq> SeedlingStepComplete"
    and "prepare w s (attempts w (calls st)) (steps ! step st) st = Inr (st1, j)"
    and "completion (attempts w (calls st)) = Inl err"
  shows "gptThread_loop w s st = (OracleFailed, asked st1)
         \<and> errs (asked st1) = errs st \<and> step (asked st1) = step st
         \<and> calls (asked st1) = calls st + 1
         \<and> (\<exists>docs. trace (asked st1) = trace st @ docs @ [EvOracle (prompt st1)]
                \<and> list_all is_godoc docs)"
proof -
  from assms have pass: "gptThread_pass w s st = (OracleFailed, asked st1)"
    by (simp add: gptThread_pass_def attempt_step_def)
  then have "gptThread_loop w s st = (OracleFailed, asked st1)"
    by (subst gptThread_loop.simps) simp
  moreover from prepare_counters [OF assms(3)]
  have "errs (asked st1) = errs st \<and> step (asked st1) = step st
      \<and> calls (asked st1) = calls st + 1"
    by (simp add: asked_def)
  moreover from prepare_trace [OF assms(3)]
  have "\<exists>docs. trace (asked st1) = trace st @ docs @ [EvOracle (prompt st1)]
      \<and> list_all is_godoc docs"
    by (auto simp: asked_def)
  ultimately show ?thesis by simp
qed

theorem oracle_transport_error_aborts_witness:
  "gptThread dead_oracle_world echo_seedling
     = (OracleFailed,
        init_state\<lparr>prompt := ''P\<newline>```protobuf\<newline>'',
                   trace := [EvOracle ''P\<newline>```protobuf\<newline>''], calls := 1\<rparr>)"
proof -
  have h1: "step init_state < length steps"
    by (simp add: init_state_def steps_def)
  have h2: "steps ! step init_state \<noteq> SeedlingStepComplete"
    by (simp add: init_state_def steps_def)
  have h3: "prepare dead_oracle_world echo_seedling
              (attempts dead_oracle_world (calls init_state)) (steps ! step init_state)
              init_state
            = Inr (init_state\<lparr>prompt := ''P\<newline>```protobuf\<newline>''\<rparr>,
                   \<lparr>repoPath = ''protobufs/echo.proto'', codeType = ''proto'',
                    cmdCmd = ''protoc'',
                    cmdArgs = [''-I=.'', ''--go_out=.'', ''--go-grpc_out=.'',
                               ''protobufs/echo.proto'']\<rparr>)"
    by (simp add: init_state_def steps_def dead_oracle_world_def stub_world_def
        echo_seedling_def filepath_Join_def Let_def)
  have h4: "completion (attempts dead_oracle_world (calls init_state)) = Inl ''503''"
    by (simp add: dead_oracle_world_def stub_world_def good_attempt_def)
  from oracle_transport_error_aborts [OF h1 h2 h3 h4] show ?thesis
    by (simp add: gptThread_def asked_def init_state_def)
qed

section \<open>A build that fails every time\<close>

lemma writeAndBuild_fails:
  assumes "build a = BuildExit out (Some e)"
  shows "\<exists>evs out' e'. writeAndBuild a file ct b g = (evs, Returns out' (Some e'))"
  using assms by (auto simp: writeAndBuild_def Let_def split: option.splits)

lemma first_stage_pass_fails:
  assumes "step st = 0"
    and "completion (attempts w (calls st)) = Inr g"
    and "build (attempts w (calls st)) = BuildExit out (Some e)"
  shows "fst (gptThread_pass w s st)
           = (if errs st < maxErrs then Running else MaxErrorsExceeded)
         \<and> step (snd (gptThread_pass w s st)) = 0
         \<and> errs (snd (gptThread_pass w s st)) = errs st + 1
         \<and> calls (snd (gptThread_pass w s st)) = calls st + 1
         \<and> stepWrites (trace (snd (gptThread_pass w s st))) = stepWrites (trace st)"
proof -
  let ?a = "attempts w (calls st)"
  obtain st1 j where prep: "prepare w s ?a SeedlingStepProtobufs st = Inr (st1, j)"
    by (simp add: Let_def)
  from prepare_counters [OF prep] assms(1)
  have c1: "step st1 = 0" "errs st1 = errs st" "calls st1 = calls st" by simp_all
  from prepare_trace [OF prep] have w1: "stepWrites (trace st1) = stepWrites (trace st)"
    by (auto simp: stepWrites_append stepWrites_godoc)
  let ?file = "filepath_Join [''repos'', ''default'', Name s, repoPath j]"
  let ?cmd = "EvBuild (cmdCmd j) (cmdArgs j) (filepath_Join [''repos'', ''default'', Name s])"
  from writeAndBuild_fails [OF assms(3)] obtain evs out' e' where
    wb: "writeAndBuild ?a ?file (codeType j) ?cmd g = (evs, Returns out' (Some e'))"
    by blast
  from writeAndBuild_stepWrites [of ?a ?file "codeType j" "cmdCmd j" "cmdArgs j"
      "filepath_Join [''repos'', ''default'', Name s]" g] wb
  have w2: "stepWrites evs = []" by simp
  have "gptThread_pass w s st
      = on_failure (asked st1\<lparr>trace := trace (asked st1) @ evs\<rparr>) g out' e'"
    using assms(1,2) prep wb c1
    by (simp add: gptThread_pass_def steps_def attempt_step_def runSeedling_def settle_def)
  with c1 w1 w2 show ?thesis
    by (simp add: on_failure_def Let_def asked_def stepWrites_append) (simp add: stepWrites_def)
qed

lemma first_stage_loop_fails:
  assumes "\<And>n. \<exists>g. completion (attempts w n) = Inr g"
    and "\<And>n. \<exists>out e. build (attempts w n) = BuildExit out (Some e)"
  shows "step st = 0 \<Longrightarrow> errs st \<le> maxErrs \<Longrightarrow>
         fst (gptThread_loop w s st) = MaxErrorsExceeded
         \<and> step (snd (gptThread_loop w s st)) = 0
         \<and> errs (snd (gptThread_loop w s st)) = maxErrs + 1
         \<and> calls (snd (gptThread_loop w s st)) = calls st + (maxErrs + 1 - errs st)
         \<and> stepWrites (trace (snd (gptThread_loop w s st))) = stepWrites (trace st)"
proof (induction "maxErrs - errs st" arbitrary: st)
  case 0
  from assms(1) obtain g where g: "completion (attempts w (calls st)) = Inr g"
    by blast
  from assms(2) obtain out e where
    b: "build (attempts w (calls st)) = BuildExit out (Some e)"
    by blast
  note pass = first_stage_pass_fails [OF "0.prems"(1) g b, of s]
  from 0 have "errs st = maxErrs" by simp
  with pass show ?case
    by (subst (1 2 3 4 5) gptThread_loop.simps) simp
next
  case (Suc k)
  from assms(1) obtain g where g: "completion (attempts w (calls st)) = Inr g"
    by blast
  from assms(2) obtain out e where
    b: "build (attempts w (calls st)) = BuildExit out (Some e)"
    by blast
  note pass = first_stage_pass_fails [OF Suc.prems(1) g b, of s]
  from Suc.hyps(2) have less: "errs st < maxErrs" by simp
  with pass have run: "fst (gptThread_pass w s st) = Running" by simp
  from pass Suc.hyps(2) have k: "k = maxErrs - errs (snd (gptThread_pass w s st))"
    by simp
  from pass less have le: "errs (snd (gptThread_pass w s st)) \<le> maxErrs" by simp
  from pass have zero: "step (snd (gptThread_pass w s st)) = 0" by simp
  from Suc.hyps(1) [OF k zero le] pass less
  have "fst (gptThread_loop w s (snd (gptThread_pass w s st))) = MaxErrorsExceeded
      \<and> step (snd (gptThread_loop w s (snd (gptThread_pass w s st)))) = 0
      \<and> errs (snd (gptThread_loop w s (snd (gptThread_pass w s st)))) = maxErrs + 1
      \<and> calls (snd (gptThread_loop w s (snd (gptThread_pass w s st))))
          = calls st + (maxErrs + 1 - errs st)
      \<and> stepWrites (trace (snd (gptThread_loop w s (snd (gptThread_pass w s st)))))
          = stepWrites (trace st)"
    by simp
  with run show ?case
    by (subst (1 2 3 4 5) gptThread_loop.simps) simp
qed

section \<open>An empty candidate\<close>

lemma prepare_errMode: "prepare w s a sg st = Inr (st', j) \<Longrightarrow> \<not> errMode st'"
  by (cases sg)
     (auto simp: Let_def dumpModDocs_def split: sum.splits if_splits prod.splits)

lemma godoc_no_write: "list_all is_godoc evs \<Longrightarrow> list_all (\<lambda>e. \<not> is_write e) evs"
proof (induction evs)
  case Nil
  show ?case by simp
next
  case (Cons e evs)
  then show ?case by (cases e) simp_all
qed

lemma gate_no_write: "list_all is_gate evs \<Longrightarrow> list_all (\<lambda>e. \<not> is_write e) evs"
proof (induction evs)
  case Nil
  show ?case by simp
next
  case (Cons e evs)
  then show ?case by (cases e) simp_all
qed

lemma writeAndBuild_empty:
  "stripFence ct g = [] \<Longrightarrow>
     writeAndBuild a file ct b g = ([], Returns [] (Some ''no code to run''))"
  by (simp add: writeAndBuild_def)

lemma runSeedling_empty:
  assumes "stripFence ct g = []"
  shows "\<exists>gates e. runSeedling w a file ct b g sg p descr = (gates, Returns [] (Some e))
           \<and> list_all is_gate gates"
proof (cases "sg = SeedlingStepServer")
  case False
  with assms show ?thesis by (simp add: runSeedling_def writeAndBuild_empty)
next
  case True
  obtain evs r where q: "qualityLoop w a (qualityPrompt_text w g descr) 0 = (evs, r)"
    by (cases "qualityLoop w a (qualityPrompt_text w g descr) 0")
  with qualityLoop_shape [of w a "qualityPrompt_text w g descr" 0]
  have gates: "list_all is_gate evs" and r: "r = None \<or> (\<exists>err. r = Some (Returns [] (Some err)))"
    by simp_all
  from r show ?thesis
  proof
    assume "r = None"
    with True q assms gates show ?thesis
      by (simp add: runSeedling_def writeAndBuild_empty)
  next
    assume "\<exists>err. r = Some (Returns [] (Some err))"
    with True q gates show ?thesis
      by (auto simp: runSeedling_def)
  qed
qed

text \<open>
  C6. When the candidate is empty after the fence and the white space around it are
  removed, the attempt returns an error: the error counter goes up by one, the stage
  stays, and within the budget the loop goes on in \<open>errMode\<close>, that is, with the same
  stage. No file is written in the pass: what the pass adds to the trace holds no write.
\<close>

theorem empty_candidate_is_a_failure:
  assumes "step st < length steps" and "steps ! step st \<noteq> SeedlingStepComplete"
    and "prepare w s (attempts w (calls st)) (steps ! step st) st = Inr (st1, j)"
    and "completion (attempts w (calls st)) = Inr g"
    and "stripFence (codeType j) g = []"
  shows "fst (gptThread_pass w s st)
           = (if errs st < maxErrs then Running else MaxErrorsExceeded)
         \<and> errs (snd (gptThread_pass w s st)) = errs st + 1
         \<and> step (snd (gptThread_pass w s st)) = step st
         \<and> errMode (snd (gptThread_pass w s st)) = (errs st < maxErrs)
         \<and> (\<exists>new. trace (snd (gptThread_pass w s st)) = trace st @ new
                \<and> list_all (\<lambda>e. \<not> is_write e) new)"
proof -
  let ?a = "attempts w (calls st)"
  from runSeedling_empty [OF assms(5)] obtain gates e where
    run: "runSeedling w ?a (filepath_Join [''repos'', ''default'', Name s, repoPath j])
            (codeType j)
            (EvBuild (cmdCmd j) (cmdArgs j) (filepath_Join [''repos'', ''default'', Name s]))
            g (steps ! step st1) (prompt st1) (Description s)
          = (gates, Returns [] (Some e))"
    and gates: "list_all is_gate gates"
    by blast
  from assms(1-4) run
  have pass: "gptThread_pass w s st
      = on_failure (asked st1\<lparr>trace := trace (asked st1) @ gates\<rparr>) g [] e"
    by (simp add: gptThread_pass_def attempt_step_def settle_def)
  from prepare_trace [OF assms(3)] obtain docs where
    docs: "trace st1 = trace st @ docs" "list_all is_godoc docs"
    by blast
  have "trace (snd (gptThread_pass w s st))
      = trace st @ (docs @ [EvOracle (prompt st1)] @ gates)"
    using docs by (simp add: pass on_failure_def Let_def asked_def)
  moreover have "list_all (\<lambda>e. \<not> is_write e) (docs @ [EvOracle (prompt st1)] @ gates)"
    using docs gates by (simp add: godoc_no_write gate_no_write)
  ultimately have "\<exists>new. trace (snd (gptThread_pass w s st)) = trace st @ new
      \<and> list_all (\<lambda>e. \<not> is_write e) new"
    by blast
  with prepare_counters [OF assms(3)] prepare_errMode [OF assms(3)] show ?thesis
    by (simp add: pass on_failure_def Let_def asked_def)
qed

lemma blank_stripped: "stripFence ''proto'' ''  \<newline>'' = []"
  by code_simp

theorem empty_candidate_is_a_failure_witness:
  "fst (gptThread_pass blank_world echo_seedling init_state) = Running
   \<and> errs (snd (gptThread_pass blank_world echo_seedling init_state)) = 1
   \<and> step (snd (gptThread_pass blank_world echo_seedling init_state)) = 0
   \<and> errMode (snd (gptThread_pass blank_world echo_seedling init_state))"
proof -
  have h1: "step init_state < length steps"
    by (simp add: init_state_def steps_def)
  have h2: "steps ! step init_state \<noteq> SeedlingStepComplete"
    by (simp add: init_state_def steps_def)
  have h3: "prepare blank_world echo_seedling
              (attempts blank_world (calls init_state)) (steps ! step init_state)
              init_state
            = Inr (init_state\<lparr>prompt := ''P\<newline>```protobuf\<newline>''\<rparr>,
                   \<lparr>repoPath = ''protobufs/echo.proto'', codeType = ''proto'',
                    cmdCmd = ''protoc'',
                    cmdArgs = [''-I=.'', ''--go_out=.'', ''--go-grpc_out=.'',
                               ''protobufs/echo.proto'']\<rparr>)"
    by (simp add: init_state_def steps_def blank_world_def stub_world_def
        echo_seedling_def filepath_Join_def Let_def)
  have h4: "completion (attempts blank_world (calls init_state)) = Inr ''  \<newline>''"
    by (simp add: blank_world_def stub_world_def good_attempt_def)
  from empty_candidate_is_a_failure [OF h1 h2 h3 h4] blank_stripped show ?thesis
    by (simp add: init_state_def maxErrs_def)
qed

section \<open>The quality gate\<close>

lemma small_unat: "n \<le> 5 \<Longrightarrow> unat (of_nat n :: 64 word) = n"
  by (simp add: unat_of_nat)

lemma five_of_nat: "n \<le> 5 \<Longrightarrow> ((5 :: 64 word) = of_nat n) = (n = 5)"
proof
  assume "n \<le> 5" and "(5 :: 64 word) = of_nat n"
  then have "unat (5 :: 64 word) = unat (of_nat n :: 64 word)" by simp
  with \<open>n \<le> 5\<close> show "n = 5" by (simp add: small_unat)
next
  assume "n = 5"
  then show "(5 :: 64 word) = of_nat n" by simp
qed

lemma qualityLoop_exhausted:
  "qualityLoop w a qp 5 = ([], Some (Returns [] (Some ''max errors exceeded'')))"
  by (subst qualityLoop.simps) simp

lemma qualityLoop_unparseable_step:
  assumes "n < 5" and "unparseable w a n"
  shows "qualityLoop w a qp (of_nat n)
           = (EvGate qp # fst (qualityLoop w a qp (of_nat (Suc n))),
              snd (qualityLoop w a qp (of_nat (Suc n))))"
proof -
  from assms(1) have ne: "(5 :: 64 word) \<noteq> of_nat n" by (simp add: five_of_nat)
  from assms(1) have idx: "unat (of_nat n :: 64 word) = n" by (simp add: small_unat)
  from assms(2) obtain out where
    "gate_completion a n = Inr out" "json_Unmarshal w (strings_TrimSpace out) = None"
    by (auto simp: unparseable_def split: sum.splits)
  with ne idx show ?thesis
    by (subst qualityLoop.simps) (simp add: Let_def add.commute split: prod.splits)
qed

lemma qualityLoop_unparseable:
  "n + k \<le> 5 \<Longrightarrow> list_all (unparseable w a) [n..<n + k] \<Longrightarrow>
     qualityLoop w a qp (of_nat n)
       = (replicate k (EvGate qp) @ fst (qualityLoop w a qp (of_nat (n + k))),
          snd (qualityLoop w a qp (of_nat (n + k))))"
proof (induction k arbitrary: n)
  case 0
  show ?case by simp
next
  case (Suc k)
  from Suc.prems(1) have n: "n < 5" by simp
  from Suc.prems(2) have every: "\<forall>i. n \<le> i \<and> i < n + Suc k \<longrightarrow> unparseable w a i"
    by (simp add: list_all_iff del: upt_Suc)
  then have first: "unparseable w a n" by simp
  from every have rest: "list_all (unparseable w a) [Suc n..<Suc n + k]"
    by (simp add: list_all_iff del: upt_Suc)
  from Suc.prems(1) have "Suc n + k \<le> 5" by simp
  from Suc.IH [OF this rest] qualityLoop_unparseable_step [OF n first, of qp]
  show ?case by (simp add: replicate_app_Cons_same)
qed

lemma qualityLoop_verdict:
  assumes "k < 5" and "verdict w a k = Some qc"
  shows "qualityLoop w a qp (of_nat k)
           = ([EvGate qp],
              if Quality qc \<noteq> ''good'' then Some (Returns [] (QualityCheck_Error qc))
              else None)"
proof -
  from assms(1) have ne: "(5 :: 64 word) \<noteq> of_nat k" by (simp add: five_of_nat)
  from assms(1) have idx: "unat (of_nat k :: 64 word) = k" by (simp add: small_unat)
  from assms(2) obtain out where
    "gate_completion a k = Inr out" "json_Unmarshal w (strings_TrimSpace out) = Some qc"
    by (auto simp: verdict_def split: sum.splits)
  with ne idx show ?thesis
    by (subst qualityLoop.simps) (simp add: Let_def)
qed

lemma qualityLoop_after_noise:
  assumes "k < 5" and "list_all (unparseable w a) [0..<k]" and "verdict w a k = Some qc"
  shows "qualityLoop w a qp 0
           = (replicate (Suc k) (EvGate qp),
              if Quality qc \<noteq> ''good'' then Some (Returns [] (QualityCheck_Error qc))
              else None)"
proof -
  from assms(1) have "0 + k \<le> 5" by simp
  from qualityLoop_unparseable [OF this, of w a qp] assms(2)
    qualityLoop_verdict [OF assms(1) assms(3), of qp]
  show ?thesis by (simp add: replicate_append_same)
qed

lemma qualityLoop_all_noise:
  assumes "list_all (unparseable w a) [0..<5]"
  shows "qualityLoop w a qp 0
           = (replicate 5 (EvGate qp), Some (Returns [] (Some ''max errors exceeded'')))"
proof -
  have "(0 :: nat) + 5 \<le> 5" by simp
  from qualityLoop_unparseable [OF this, of w a qp] assms show ?thesis
    by (simp add: qualityLoop_exhausted)
qed



lemma server_prepared:
  assumes "protoBufDefs_read a = Inr protoBufDefs" and "grpcDefs_read a = Inr grpcDefs"
  shows "prepare (stub_world atts) echo_seedling a SeedlingStepServer server_state
     = Inr (server_state\<lparr>prompt := ''PS```go\<newline>''\<rparr>,
            \<lparr>repoPath = ''server/main.go'', codeType = ''go'', cmdCmd = ''sh'',
             cmdArgs = [''-c'', ''go get ./... && go build -o /tmp/server ./server'']\<rparr>)"
  using assms
  by (simp add: server_state_def init_state_def stub_world_def Let_def filepath_Join_def)

lemma noise_unparseable: "stub_unmarshal (strings_TrimSpace ''{quality'') = None"
  by code_simp


lemma good_verdict:
  "stub_unmarshal (strings_TrimSpace ''good'')
     = Some \<lparr>Quality = ''good'', Reason = ''fine'', Suggestions = ''none''\<rparr>"
  by code_simp


lemma settle_errs:
  "errs (snd (settle a s st g r)) = errs st + (if failed (snd r) then 1 else 0)"
proof -
  obtain evs res where r: "r = (evs, res)" by (cases r)
  show ?thesis
  proof (cases res)
    case Hangs
    with r show ?thesis by (simp add: settle_def)
  next
    case (Returns out err)
    with r show ?thesis
      by (cases err) (simp_all add: settle_def on_failure_def on_success_def Let_def)
  qed
qed

text \<open>
  C7. An answer of the gate that cannot be parsed makes \<open>runSeedling\<close> ask the gate
  again, up to five calls in all; the counter of these answers is local to the call and
  is not the error counter of \<open>gptThread\<close>. When, after fewer than five unparseable
  answers, the gate accepts, the attempt goes on to write and build as if the gate had
  accepted at once, and the error counter goes up only if that part returns an error.
  When five answers in a row are unparseable, the attempt returns the error
  \<open>max errors exceeded\<close>, and the error counter goes up by one.
\<close>

theorem unparseable_verdicts_have_their_own_allowance:
  assumes "step st < length steps" and "steps ! step st = SeedlingStepServer"
    and "prepare w s (attempts w (calls st)) SeedlingStepServer st = Inr (st1, j)"
    and "completion (attempts w (calls st)) = Inr g"
    and "a = attempts w (calls st)" and "qp = qualityPrompt_text w g (Description s)"
    and "wb = writeAndBuild a (filepath_Join [''repos'', ''default'', Name s, repoPath j])
                (codeType j)
                (EvBuild (cmdCmd j) (cmdArgs j)
                   (filepath_Join [''repos'', ''default'', Name s])) g"
  shows "(\<forall>k qc. k < 5 \<and> list_all (unparseable w a) [0..<k] \<and> verdict w a k = Some qc
            \<and> Quality qc = ''good'' \<longrightarrow>
            gptThread_pass w s st
              = settle a s (asked st1) g (replicate (Suc k) (EvGate qp) @ fst wb, snd wb)
            \<and> errs (snd (gptThread_pass w s st))
                = errs st + (if failed (snd wb) then 1 else 0))
         \<and> (list_all (unparseable w a) [0..<5] \<longrightarrow>
            gptThread_pass w s st
              = on_failure (asked st1\<lparr>trace := trace (asked st1) @ replicate 5 (EvGate qp)\<rparr>)
                  g [] ''max errors exceeded''
            \<and> errs (snd (gptThread_pass w s st)) = errs st + 1)"
proof -
  from prepare_counters [OF assms(3)] assms(2)
  have stage: "steps ! step st1 = SeedlingStepServer" and same: "errs st1 = errs st"
    by simp_all
  have pass: "gptThread_pass w s st
      = settle a s (asked st1) g
          (runSeedling w a (filepath_Join [''repos'', ''default'', Name s, repoPath j])
             (codeType j)
             (EvBuild (cmdCmd j) (cmdArgs j) (filepath_Join [''repos'', ''default'', Name s]))
             g SeedlingStepServer (prompt st1) (Description s))"
    using assms(1-5) stage by (simp add: gptThread_pass_def attempt_step_def)
  have accepted: "gptThread_pass w s st
        = settle a s (asked st1) g (replicate (Suc k) (EvGate qp) @ fst wb, snd wb)
      \<and> errs (snd (gptThread_pass w s st)) = errs st + (if failed (snd wb) then 1 else 0)"
    if "k < 5" and "list_all (unparseable w a) [0..<k]" and "verdict w a k = Some qc"
      and "Quality qc = ''good''" for k qc
  proof -
    from qualityLoop_after_noise [OF that(1,2,3), of qp] that(4)
    have "qualityLoop w a qp 0 = (replicate (Suc k) (EvGate qp), None)" by simp
    with assms(6,7) have eq: "gptThread_pass w s st
        = settle a s (asked st1) g (replicate (Suc k) (EvGate qp) @ fst wb, snd wb)"
      by (simp add: pass runSeedling_def)
    with same show ?thesis by (simp add: settle_errs asked_def)
  qed
  have exhausted: "gptThread_pass w s st
        = on_failure (asked st1\<lparr>trace := trace (asked st1) @ replicate 5 (EvGate qp)\<rparr>)
            g [] ''max errors exceeded''
      \<and> errs (snd (gptThread_pass w s st)) = errs st + 1"
    if "list_all (unparseable w a) [0..<5]"
  proof -
    from qualityLoop_all_noise [OF that, of qp] assms(6)
    have "gptThread_pass w s st
        = on_failure (asked st1\<lparr>trace := trace (asked st1) @ replicate 5 (EvGate qp)\<rparr>)
            g [] ''max errors exceeded''"
      by (simp add: pass runSeedling_def settle_def)
    with same show ?thesis by (simp add: on_failure_def Let_def asked_def)
  qed
  from accepted exhausted show ?thesis by blast
qed


lemma code_stripped: "stripFence ''go'' ''code'' = ''code''"
  by code_simp

lemma good_build:
  assumes "writeFile_err a = None" and "build a = BuildExit [] None"
    and "gitAdd_err a = None" and "gitCommit_err a = None"
  shows "\<not> failed (snd (writeAndBuild a file ''go'' b ''code''))"
  using assms by (simp add: writeAndBuild_def commitArtifact_def Let_def code_stripped)

theorem unparseable_verdicts_have_their_own_allowance_witness:
  "errs (snd (gptThread_pass noisy_world echo_seedling server_state)) = 0
   \<and> errs (snd (gptThread_pass noise_world echo_seedling server_state)) = 1
   \<and> fst (gptThread_pass noise_world echo_seedling server_state) = Running"
proof -
  let ?j = "\<lparr>repoPath = ''server/main.go'', codeType = ''go'', cmdCmd = ''sh'',
      cmdArgs = [''-c'', ''go get ./... && go build -o /tmp/server ./server'']\<rparr>"
  let ?st1 = "server_state\<lparr>prompt := ''PS```go\<newline>''\<rparr>"
  have h1: "step server_state < length steps"
    by (simp add: server_state_def init_state_def steps_def)
  have h2: "steps ! step server_state = SeedlingStepServer"
    by (simp add: server_state_def init_state_def steps_def)
  let ?a = "attempts noisy_world (calls server_state)"
  have a3: "prepare noisy_world echo_seedling ?a SeedlingStepServer server_state
      = Inr (?st1, ?j)"
    unfolding noisy_world_def
    by (rule server_prepared) (simp_all add: stub_world_def good_attempt_def)
  have a4: "completion ?a = Inr ''code''"
    by (simp add: noisy_world_def stub_world_def good_attempt_def)
  have a5: "list_all (unparseable noisy_world ?a) [0..<1]"
    by (simp add: unparseable_def noisy_world_def stub_world_def noise_unparseable)
  have a6: "verdict noisy_world ?a 1
      = Some \<lparr>Quality = ''good'', Reason = ''fine'', Suggestions = ''none''\<rparr>"
    by (simp add: verdict_def noisy_world_def stub_world_def good_verdict)
  have a7: "\<not> failed (snd (writeAndBuild ?a
      (filepath_Join [''repos'', ''default'', Name echo_seedling, repoPath ?j]) (codeType ?j)
      (EvBuild (cmdCmd ?j) (cmdArgs ?j)
         (filepath_Join [''repos'', ''default'', Name echo_seedling])) ''code''))"
    by (simp add: good_build noisy_world_def stub_world_def good_attempt_def)
  let ?b = "attempts noise_world (calls server_state)"
  have b3: "prepare noise_world echo_seedling ?b SeedlingStepServer server_state
      = Inr (?st1, ?j)"
    unfolding noise_world_def
    by (rule server_prepared) (simp_all add: stub_world_def good_attempt_def)
  have b4: "completion ?b = Inr ''code''"
    by (simp add: noise_world_def stub_world_def good_attempt_def)
  have b5: "list_all (unparseable noise_world ?b) [0..<5]"
    by (simp add: unparseable_def noise_world_def stub_world_def noise_unparseable
        list_all_iff)
  from unparseable_verdicts_have_their_own_allowance [OF h1 h2 a3 a4 refl refl refl]
    a5 a6 a7
  have "errs (snd (gptThread_pass noisy_world echo_seedling server_state))
      = errs server_state"
    by (auto simp: numeral_eq_Suc)
  moreover
  from unparseable_verdicts_have_their_own_allowance [OF h1 h2 b3 b4 refl refl refl] b5
  have "gptThread_pass noise_world echo_seedling server_state
      = on_failure (asked ?st1\<lparr>trace := trace (asked ?st1)
            @ replicate 5 (EvGate (qualityPrompt_text noise_world ''code''
                (Description echo_seedling)))\<rparr>) ''code'' [] ''max errors exceeded''
    \<and> errs (snd (gptThread_pass noise_world echo_seedling server_state))
      = errs server_state + 1"
    by blast
  ultimately show ?thesis
    by (simp add: server_state_def init_state_def on_failure_def Let_def asked_def
        maxErrs_def)
qed

section \<open>The order of gate and write\<close>

lemma writeAndBuild_events:
  "list_all (\<lambda>e. \<not> is_gate e) (fst (writeAndBuild a file ct (EvBuild c args d) g))
   \<and> (\<forall>f x. EvWriteFile f x \<in> set (fst (writeAndBuild a file ct (EvBuild c args d) g))
          \<longrightarrow> f = file \<and> x = stripFence ct g \<and> x \<noteq> [])"
proof -
  have "list_all (\<lambda>e. \<not> is_gate e) (fst (commitArtifact a))"
    "\<forall>f x. EvWriteFile f x \<notin> set (fst (commitArtifact a))"
    by (auto simp: commitArtifact_def split: option.splits)
  then show ?thesis
    by (auto simp: writeAndBuild_def Let_def split: option.splits build_result.splits)
qed

lemma gates_are_no_files: "list_all is_gate gates \<Longrightarrow> EvWriteFile f x \<notin> set gates"
  by (auto simp: list_all_iff)

lemma dropWhile_keeps: "list_all P xs \<Longrightarrow> list_all P (dropWhile Q xs)"
  by (auto simp: list_all_iff dest: set_dropWhileD)

lemma gate_order:
  assumes "evs = fst (runSeedling w a file ct (EvBuild c args d) g sg p descr)"
  shows "list_all (\<lambda>e. \<not> is_gate e) (dropWhile (\<lambda>e. \<not> is_write e) evs)
         \<and> (sg = SeedlingStepServer
              \<and> snd (qualityLoop w a (qualityPrompt_text w g descr) 0) \<noteq> None
             \<longrightarrow> list_all (\<lambda>e. \<not> is_write e) evs)
         \<and> (\<forall>f x. EvWriteFile f x \<in> set evs
                \<longrightarrow> f = file \<and> x = stripFence ct g \<and> x \<noteq> [])"
proof (cases "sg = SeedlingStepServer")
  case False
  with assms have evs: "evs = fst (writeAndBuild a file ct (EvBuild c args d) g)"
    by (simp add: runSeedling_def)
  from writeAndBuild_events [of a "file" ct c args d g] False show ?thesis
    unfolding evs by (simp add: dropWhile_keeps)
next
  case True
  obtain gates r where q: "qualityLoop w a (qualityPrompt_text w g descr) 0 = (gates, r)"
    by (cases "qualityLoop w a (qualityPrompt_text w g descr) 0")
  with qualityLoop_shape [of w a "qualityPrompt_text w g descr" 0]
  have gates: "list_all is_gate gates" by simp
  then have skip: "\<And>e. e \<in> set gates \<Longrightarrow> \<not> is_write e"
    using gate_no_write [OF gates] by (simp add: list_all_iff)
  show ?thesis
  proof (cases r)
    case None
    with True q assms
    have evs: "evs = gates @ fst (writeAndBuild a file ct (EvBuild c args d) g)"
      by (simp add: runSeedling_def)
    from writeAndBuild_events [of a "file" ct c args d g] gates_are_no_files [OF gates]
      None q show ?thesis
      unfolding evs by (simp add: dropWhile_append2 skip dropWhile_keeps)
  next
    case (Some res)
    with True q assms have evs: "evs = gates" by (simp add: runSeedling_def)
    have dw: "dropWhile (\<lambda>e. \<not> is_write e) gates = []"
      using skip by simp
    from gate_no_write [OF gates] gates_are_no_files [OF gates] show ?thesis
      unfolding evs dw by simp
  qed
qed

lemma strict_rejects:
  "qualityLoop strict_world (attempts strict_world 0)
     (qualityPrompt_text strict_world ''code'' ''echoes'') 0
   = ([EvGate ''Qcode''],
      Some (Returns [] (Some ''Quality check failed for this reason: stub. To improve the quality, we suggest you: implement it'')))"
  by code_simp

lemma qualityLoop_asks_about:
  "\<forall>e \<in> set (fst (qualityLoop w a qp n)). e = EvGate qp"
proof (induction w a qp n rule: qualityLoop.induct)
  case (1 w a qualityPrompt errs)
  show ?case
  proof (cases "(5 :: 64 word) = errs")
    case True
    then show ?thesis by (subst qualityLoop.simps) simp
  next
    case False
    show ?thesis
    proof (cases "gate_completion a (unat errs)")
      case (Inl err)
      with False show ?thesis by (subst qualityLoop.simps) simp
    next
      case (Inr out)
      show ?thesis
      proof (cases "json_Unmarshal w (strings_TrimSpace out)")
        case None
        from "1.IH" [OF False Inr refl None] False Inr None show ?thesis
          by (subst qualityLoop.simps) (auto split: prod.splits)
      next
        case (Some qc)
        with False Inr show ?thesis
          by (subst qualityLoop.simps) auto
      qed
    qed
  qed
qed

lemma qualityLoop_asks_first:
  "\<exists>rest. fst (qualityLoop w a qp 0) = EvGate qp # rest"
  by (subst qualityLoop.simps) (auto simp: Let_def split: sum.splits option.splits prod.splits)

lemma gate_calls:
  assumes "evs = fst (runSeedling w a file ct (EvBuild c args d) g sg p descr)"
  shows "(\<forall>q. EvGate q \<in> set evs \<longrightarrow> q = qualityPrompt_text w g descr)
         \<and> (sg = SeedlingStepServer
             \<longrightarrow> (\<exists>rest. evs = EvGate (qualityPrompt_text w g descr) # rest))"
proof (cases "sg = SeedlingStepServer")
  case False
  with assms have evs: "evs = fst (writeAndBuild a file ct (EvBuild c args d) g)"
    by (simp add: runSeedling_def)
  from writeAndBuild_events [of a "file" ct c args d g] False show ?thesis
    unfolding evs by (auto simp: list_all_iff)
next
  case True
  let ?qp = "qualityPrompt_text w g descr"
  obtain gates r where q: "qualityLoop w a ?qp 0 = (gates, r)"
    by (cases "qualityLoop w a ?qp 0")
  from qualityLoop_asks_about [of w a ?qp 0] q
  have about: "\<forall>e \<in> set gates. e = EvGate ?qp" by simp
  from qualityLoop_asks_first [of w a ?qp] q
  obtain more where first: "gates = EvGate ?qp # more" by auto
  from writeAndBuild_events [of a "file" ct c args d g]
  have none: "\<forall>q. EvGate q \<notin> set (fst (writeAndBuild a file ct (EvBuild c args d) g))"
    by (auto simp: list_all_iff)
  show ?thesis
  proof (cases r)
    case None
    with True q assms
    have evs: "evs = gates @ fst (writeAndBuild a file ct (EvBuild c args d) g)"
      by (simp add: runSeedling_def)
    from about none first show ?thesis unfolding evs by auto
  next
    case (Some res)
    with True q assms have evs: "evs = gates" by (simp add: runSeedling_def)
    from about first show ?thesis unfolding evs by auto
  qed
qed

text \<open>
  C4, as amended. In every call of \<open>runSeedling\<close> the gate is asked before anything is
  written: from the first write on, the events of the call hold no gate call. When the
  gate ends the call of the server stage (a rejection, a transport error or five
  unparseable answers), the call writes nothing, so a rejected candidate is not at the
  artifact path. What is written, if anything, is the candidate without fence and
  surrounding white space, not empty, at the path given. Every gate call of the call asks
  about the candidate as the oracle returned it, and in the server stage the first event
  of the call is such a gate call.
\<close>

theorem gate_is_asked_before_the_write:
  assumes "evs = fst (runSeedling w a file ct (EvBuild c args d) g sg p descr)"
  shows "list_all (\<lambda>e. \<not> is_gate e) (dropWhile (\<lambda>e. \<not> is_write e) evs)
         \<and> (sg = SeedlingStepServer
              \<and> snd (qualityLoop w a (qualityPrompt_text w g descr) 0) \<noteq> None
             \<longrightarrow> list_all (\<lambda>e. \<not> is_write e) evs)
         \<and> (\<forall>f x. EvWriteFile f x \<in> set evs
                \<longrightarrow> f = file \<and> x = stripFence ct g \<and> x \<noteq> [])
         \<and> (\<forall>q. EvGate q \<in> set evs \<longrightarrow> q = qualityPrompt_text w g descr)
         \<and> (sg = SeedlingStepServer
             \<longrightarrow> (\<exists>rest. evs = EvGate (qualityPrompt_text w g descr) # rest))"
  using gate_order [OF assms] gate_calls [OF assms] by simp

theorem gate_is_asked_before_the_write_witness:
  "list_all (\<lambda>e. \<not> is_write e)
     (fst (runSeedling strict_world (attempts strict_world 0)
        ''repos/default/echo/server/main.go'' ''go''
        (EvBuild ''sh'' [''-c'', ''go get ./... && go build -o /tmp/server ./server'']
           ''repos/default/echo'')
        ''code'' SeedlingStepServer ''PS```go\<newline>'' ''echoes''))"
  using gate_is_asked_before_the_write [OF refl, where sg = SeedlingStepServer
      and w = strict_world and a = "attempts strict_world 0" and g = "''code''"
      and descr = "''echoes''"]
  by (simp add: strict_rejects)

text \<open>
  C4 as stated fails: in a pass of the server stage in which the gate rejects the
  candidate, the gate is asked and no file is written at all.
\<close>

theorem rejected_candidate_is_not_written:
  "trace (snd (gptThread_pass strict_world echo_seedling server_state))
     = [EvOracle ''PS```go\<newline>'', EvGate ''Qcode'']
   \<and> filter is_write (trace (snd (gptThread_pass strict_world echo_seedling server_state)))
       = []"
proof -
  have "trace (snd (gptThread_pass strict_world echo_seedling server_state))
      = [EvOracle ''PS```go\<newline>'', EvGate ''Qcode'']"
    by code_simp
  then show ?thesis by simp
qed

section \<open>A build command that never exits\<close>

text \<open>
  C9, as amended. The build command is run without a deadline: \<open>runSeedling\<close> waits for
  it. In a pass that reaches the build command (the gate, where it applies, has accepted,
  the candidate is not empty and the file is written), a command that never exits keeps
  the thread in that call: the loop makes no further pass, the attempt is not counted as
  a failure, and the build command is the last event.
\<close>

theorem build_command_has_no_deadline:
  assumes "step st < length steps" and "steps ! step st \<noteq> SeedlingStepComplete"
    and "prepare w s (attempts w (calls st)) (steps ! step st) st = Inr (st1, j)"
    and "completion (attempts w (calls st)) = Inr g"
    and "steps ! step st \<noteq> SeedlingStepServer
         \<or> snd (qualityLoop w (attempts w (calls st))
                  (qualityPrompt_text w g (Description s)) 0) = None"
    and "stripFence (codeType j) g \<noteq> []"
    and "writeFile_err (attempts w (calls st)) = None"
    and "chmod_err (attempts w (calls st)) = None"
    and "build (attempts w (calls st)) = BuildHangs"
  shows "gptThread_loop w s st = gptThread_pass w s st
         \<and> fst (gptThread_pass w s st) = BuildNeverReturned
         \<and> errs (snd (gptThread_pass w s st)) = errs st
         \<and> step (snd (gptThread_pass w s st)) = step st
         \<and> last (trace (snd (gptThread_pass w s st)))
             = EvBuild (cmdCmd j) (cmdArgs j) (filepath_Join [''repos'', ''default'', Name s])"
proof -
  let ?a = "attempts w (calls st)"
  let ?file = "filepath_Join [''repos'', ''default'', Name s, repoPath j]"
  let ?cmd = "EvBuild (cmdCmd j) (cmdArgs j) (filepath_Join [''repos'', ''default'', Name s])"
  from assms(6-9) obtain written where
    wb: "writeAndBuild ?a ?file (codeType j) ?cmd g = (written @ [?cmd], Hangs)"
    by (simp add: writeAndBuild_def Let_def)
  from prepare_counters [OF assms(3)]
  have same: "step st1 = step st" "errs st1 = errs st" by simp_all
  obtain gates where
    run: "runSeedling w ?a ?file (codeType j) ?cmd g (steps ! step st1) (prompt st1)
            (Description s) = (gates @ written @ [?cmd], Hangs)"
  proof (cases "steps ! step st = SeedlingStepServer")
    case False
    with wb same have "runSeedling w ?a ?file (codeType j) ?cmd g (steps ! step st1)
        (prompt st1) (Description s) = ([] @ written @ [?cmd], Hangs)"
      by (simp add: runSeedling_def)
    then show ?thesis by (rule that)
  next
    case True
    with assms(5) obtain gates where
      "qualityLoop w ?a (qualityPrompt_text w g (Description s)) 0 = (gates, None)"
      by (cases "qualityLoop w ?a (qualityPrompt_text w g (Description s)) 0") auto
    with True wb same have "runSeedling w ?a ?file (codeType j) ?cmd g (steps ! step st1)
        (prompt st1) (Description s) = (gates @ written @ [?cmd], Hangs)"
      by (simp add: runSeedling_def)
    then show ?thesis by (rule that)
  qed
  from assms(1-4) run
  have pass: "gptThread_pass w s st
      = (BuildNeverReturned,
         asked st1\<lparr>trace := trace (asked st1) @ gates @ written @ [?cmd]\<rparr>)"
    by (simp add: gptThread_pass_def attempt_step_def settle_def)
  then have "gptThread_loop w s st = gptThread_pass w s st"
    by (subst gptThread_loop.simps) simp
  with same show ?thesis by (simp add: pass asked_def)
qed

lemma hanging_stripped: "stripFence ''proto'' ''code'' \<noteq> []"
  by code_simp

theorem build_command_has_no_deadline_witness:
  "gptThread hanging_world echo_seedling
     = gptThread_pass hanging_world echo_seedling init_state
   \<and> fst (gptThread_pass hanging_world echo_seedling init_state) = BuildNeverReturned
   \<and> errs (snd (gptThread_pass hanging_world echo_seedling init_state)) = 0"
proof -
  let ?a = "attempts hanging_world (calls init_state)"
  let ?j = "\<lparr>repoPath = ''protobufs/echo.proto'', codeType = ''proto'', cmdCmd = ''protoc'',
      cmdArgs = [''-I=.'', ''--go_out=.'', ''--go-grpc_out=.'', ''protobufs/echo.proto'']\<rparr>"
  have h1: "step init_state < length steps"
    by (simp add: init_state_def steps_def)
  have h2: "steps ! step init_state \<noteq> SeedlingStepComplete"
    by (simp add: init_state_def steps_def)
  have h3: "prepare hanging_world echo_seedling ?a (steps ! step init_state) init_state
      = Inr (init_state\<lparr>prompt := ''P\<newline>```protobuf\<newline>''\<rparr>, ?j)"
    by (simp add: init_state_def steps_def hanging_world_def stub_world_def
        echo_seedling_def filepath_Join_def Let_def)
  have h4: "completion ?a = Inr ''code''"
    by (simp add: hanging_world_def stub_world_def good_attempt_def)
  have h5: "steps ! step init_state \<noteq> SeedlingStepServer
      \<or> snd (qualityLoop hanging_world ?a
            (qualityPrompt_text hanging_world ''code'' (Description echo_seedling)) 0) = None"
    by (simp add: init_state_def steps_def)
  have h6: "stripFence (codeType ?j) ''code'' \<noteq> []"
    by (simp add: hanging_stripped)
  have h7: "writeFile_err ?a = None" and h8: "chmod_err ?a = None"
    and h9: "build ?a = BuildHangs"
    by (simp_all add: hanging_world_def stub_world_def good_attempt_def)
  from build_command_has_no_deadline [OF h1 h2 h3 h4 h5 h6 h7 h8 h9] show ?thesis
    by (simp add: gptThread_def init_state_def)
qed

text \<open>
  C9 as stated fails: with a build command that never exits the thread never leaves the
  first attempt, and no error is counted.
\<close>

theorem hanging_build_blocks_the_worker:
  "fst (gptThread hanging_world echo_seedling) = BuildNeverReturned
   \<and> errs (snd (gptThread hanging_world echo_seedling)) = 0
   \<and> calls (snd (gptThread hanging_world echo_seedling)) = 1"
proof -
  have p: "fst (gptThread_pass hanging_world echo_seedling init_state) = BuildNeverReturned"
    by code_simp
  then have "gptThread hanging_world echo_seedling
      = gptThread_pass hanging_world echo_seedling init_state"
    by (simp add: gptThread_def gptThread_loop.simps [of _ _ init_state])
  moreover have "errs (snd (gptThread_pass hanging_world echo_seedling init_state)) = 0"
    by code_simp
  moreover have "calls (snd (gptThread_pass hanging_world echo_seedling init_state)) = 1"
    by code_simp
  ultimately show ?thesis using p by simp
qed

section \<open>Lines of the failure output\<close>













section \<open>A build that fails every time, in both versions\<close>

lemma runSeedling_v1_fails:
  assumes "writeFile_err a = None" and "build a = BuildExit out (Some e)"
  shows "runSeedling_v1 a path ct b g
           = ([EvWriteFile path (stripFence ct g), b], Returns out (Some e))"
  using assms by (simp add: runSeedling_v1_def Let_def)

lemma attempt_v1_fails:
  assumes "completion (attempts w (calls st)) = Inr g"
    and "writeFile_err (attempts w (calls st)) = None"
    and "build (attempts w (calls st)) = BuildExit out (Some e)"
    and "out \<noteq> []"
  shows "fst (attempt_v1 w s j st)
           = (if errs st < maxErrs_v1 then Again else End MaxErrorsExceeded)
         \<and> errs (snd (attempt_v1 w s j st)) = errs st + 1
         \<and> step (snd (attempt_v1 w s j st)) = step st
         \<and> calls (snd (attempt_v1 w s j st)) = calls st + 1
         \<and> stepWrites (trace (snd (attempt_v1 w s j st))) = stepWrites (trace st)"
  using assms
  by (simp add: attempt_v1_def Let_def runSeedling_v1_fails on_failure_v1_def asked_def
      stepWrites_append)
     (simp add: stepWrites_def)

lemma retry_v1_fails:
  assumes "\<And>n. \<exists>g. completion (attempts w n) = Inr g"
    and "\<And>n. writeFile_err (attempts w n) = None"
    and "\<And>n. \<exists>out e. build (attempts w n) = BuildExit out (Some e) \<and> out \<noteq> []"
  shows "errs st \<le> maxErrs_v1 \<Longrightarrow>
         fst (retry_v1 w s j st) = End MaxErrorsExceeded
         \<and> errs (snd (retry_v1 w s j st)) = maxErrs_v1 + 1
         \<and> step (snd (retry_v1 w s j st)) = step st
         \<and> calls (snd (retry_v1 w s j st)) = calls st + (maxErrs_v1 + 1 - errs st)
         \<and> stepWrites (trace (snd (retry_v1 w s j st))) = stepWrites (trace st)"
proof (induction "maxErrs_v1 - errs st" arbitrary: st)
  case 0
  from assms(1) obtain g where g: "completion (attempts w (calls st)) = Inr g"
    by blast
  from assms(3) obtain out e where
    b: "build (attempts w (calls st)) = BuildExit out (Some e)" "out \<noteq> []"
    by blast
  note pass = attempt_v1_fails [OF g assms(2) b, of s j]
  from 0 have "errs st = maxErrs_v1" by simp
  with pass show ?case
    by (subst (1 2 3 4 5) retry_v1.simps) simp
next
  case (Suc k)
  from assms(1) obtain g where g: "completion (attempts w (calls st)) = Inr g"
    by blast
  from assms(3) obtain out e where
    b: "build (attempts w (calls st)) = BuildExit out (Some e)" "out \<noteq> []"
    by blast
  note pass = attempt_v1_fails [OF g assms(2) b, of s j]
  from Suc.hyps(2) have less: "errs st < maxErrs_v1" by simp
  with pass have again: "fst (attempt_v1 w s j st) = Again" by simp
  from pass Suc.hyps(2) have k: "k = maxErrs_v1 - errs (snd (attempt_v1 w s j st))"
    by simp
  from pass less have le: "errs (snd (attempt_v1 w s j st)) \<le> maxErrs_v1" by simp
  from Suc.hyps(1) [OF k le] pass less
  have "fst (retry_v1 w s j (snd (attempt_v1 w s j st))) = End MaxErrorsExceeded
      \<and> errs (snd (retry_v1 w s j (snd (attempt_v1 w s j st)))) = maxErrs_v1 + 1
      \<and> step (snd (retry_v1 w s j (snd (attempt_v1 w s j st)))) = step st
      \<and> calls (snd (retry_v1 w s j (snd (attempt_v1 w s j st))))
          = calls st + (maxErrs_v1 + 1 - errs st)
      \<and> stepWrites (trace (snd (retry_v1 w s j (snd (attempt_v1 w s j st)))))
          = stepWrites (trace st)"
    by simp
  with again show ?case
    by (subst (1 2 3 4 5) retry_v1.simps) simp
qed

lemma gptThread_v1_first_stage:
  "gptThread_v1 w s
     = (let st = init_state\<lparr>prompt := protoPrompt_v1_text w s
                   @ ''\<newline>Use markdown and include only the file requested.\<newline>```proto''\<rparr>;
            j = \<lparr>repoPath = filepath_Join [''protobufs'', Name s @ ''.proto''],
                 codeType = ''proto'', cmdCmd = ''protoc'',
                 cmdArgs = [''-I=.'', ''--go_out=.'', ''--go-grpc_out=.'',
                            filepath_Join [''protobufs'', Name s @ ''.proto'']]\<rparr>
        in if fst (retry_v1 w s j st) = Next
           then gptThread_v1_loop w s (snd (retry_v1 w s j st))
           else retry_v1 w s j st)"
  unfolding gptThread_v1_def
  by (subst gptThread_v1_loop.simps) (simp add: init_state_def steps_v1_def Let_def)

text \<open>
  C2, as amended. When the oracle answers and the build command fails in every attempt,
  the thread of the version with the budget of 15 counts one error for each attempt and
  ends with \<open>Max errors exceeded\<close> when the counter is 16, after 16 attempts, still at
  the first stage and without having stored a stage. In the first version (budget 5) the
  same holds, with 6 for 16, when the file can be written and each failed build has
  printed something; a failure without output ends that thread at once.
\<close>

theorem failing_build_exhausts_the_budget:
  assumes "\<And>n. \<exists>g. completion (attempts w n) = Inr g"
    and "\<And>n. \<exists>out e. build (attempts w n) = BuildExit out (Some e)"
  shows "fst (gptThread w s) = MaxErrorsExceeded
         \<and> errs (snd (gptThread w s)) = maxErrs + 1
         \<and> calls (snd (gptThread w s)) = maxErrs + 1
         \<and> step (snd (gptThread w s)) = 0
         \<and> stepWrites (trace (snd (gptThread w s))) = []
         \<and> ((\<forall>n. writeFile_err (attempts w n) = None
                  \<and> (\<forall>out e. build (attempts w n) = BuildExit out e \<longrightarrow> out \<noteq> []))
              \<longrightarrow> fst (gptThread_v1 w s) = End MaxErrorsExceeded
                  \<and> errs (snd (gptThread_v1 w s)) = maxErrs_v1 + 1
                  \<and> calls (snd (gptThread_v1 w s)) = maxErrs_v1 + 1
                  \<and> step (snd (gptThread_v1 w s)) = 0
                  \<and> stepWrites (trace (snd (gptThread_v1 w s))) = [])"
proof -
  have later: "fst (gptThread w s) = MaxErrorsExceeded
      \<and> errs (snd (gptThread w s)) = maxErrs + 1
      \<and> calls (snd (gptThread w s)) = maxErrs + 1
      \<and> step (snd (gptThread w s)) = 0
      \<and> stepWrites (trace (snd (gptThread w s))) = []"
    using first_stage_loop_fails [OF assms, of init_state s]
    by (simp add: gptThread_def init_state_def stepWrites_def)
  have first: "fst (gptThread_v1 w s) = End MaxErrorsExceeded
      \<and> errs (snd (gptThread_v1 w s)) = maxErrs_v1 + 1
      \<and> calls (snd (gptThread_v1 w s)) = maxErrs_v1 + 1
      \<and> step (snd (gptThread_v1 w s)) = 0
      \<and> stepWrites (trace (snd (gptThread_v1 w s))) = []"
    if loud: "\<forall>n. writeFile_err (attempts w n) = None
        \<and> (\<forall>out e. build (attempts w n) = BuildExit out e \<longrightarrow> out \<noteq> [])"
  proof -
    from loud have wr: "\<And>n. writeFile_err (attempts w n) = None" by simp
    have bd: "\<And>n. \<exists>out e. build (attempts w n) = BuildExit out (Some e) \<and> out \<noteq> []"
      using assms(2) loud by metis
    let ?st = "init_state\<lparr>prompt := protoPrompt_v1_text w s
        @ ''\<newline>Use markdown and include only the file requested.\<newline>```proto''\<rparr>"
    have "errs ?st \<le> maxErrs_v1" by (simp add: init_state_def)
    from retry_v1_fails [OF assms(1) wr bd this, of s] show ?thesis
      by (simp add: gptThread_v1_first_stage Let_def init_state_def stepWrites_def)
  qed
  from later first show ?thesis by blast
qed

theorem failing_build_exhausts_the_budget_witness:
  "fst (gptThread failing_build_world echo_seedling) = MaxErrorsExceeded
   \<and> errs (snd (gptThread failing_build_world echo_seedling)) = 16
   \<and> calls (snd (gptThread failing_build_world echo_seedling)) = 16
   \<and> stepWrites (trace (snd (gptThread failing_build_world echo_seedling))) = []
   \<and> fst (gptThread_v1 failing_build_world echo_seedling) = End MaxErrorsExceeded
   \<and> errs (snd (gptThread_v1 failing_build_world echo_seedling)) = 6"
proof -
  have h1: "\<And>n. \<exists>g. completion (attempts failing_build_world n) = Inr g"
    by (simp add: failing_build_world_def stub_world_def good_attempt_def)
  have h2: "\<And>n. \<exists>out e. build (attempts failing_build_world n) = BuildExit out (Some e)"
    by (simp add: failing_build_world_def stub_world_def good_attempt_def)
  have h3: "\<forall>n. writeFile_err (attempts failing_build_world n) = None
      \<and> (\<forall>out e. build (attempts failing_build_world n) = BuildExit out e \<longrightarrow> out \<noteq> [])"
    by (auto simp: failing_build_world_def stub_world_def good_attempt_def)
  from failing_build_exhausts_the_budget [OF h1 h2, of echo_seedling] h3 show ?thesis
    by (simp add: maxErrs_def maxErrs_v1_def)
qed

text \<open>
  C2 as stated fails in the first version: a build command that fails without output in
  every attempt ends the thread in the first attempt, with the error counter at 0.
\<close>

theorem silent_failure_is_not_counted:
  "build (attempts silent_failure_world 0) = BuildExit [] (Some ''exit status 1'')
   \<and> fst (gptThread_v1 silent_failure_world echo_seedling) = End NotABuildFailure
   \<and> errs (snd (gptThread_v1 silent_failure_world echo_seedling)) = 0
   \<and> calls (snd (gptThread_v1 silent_failure_world echo_seedling)) = 1"
proof -
  let ?st = "init_state\<lparr>prompt := protoPrompt_v1_text silent_failure_world echo_seedling
      @ ''\<newline>Use markdown and include only the file requested.\<newline>```proto''\<rparr>"
  let ?j = "\<lparr>repoPath = filepath_Join [''protobufs'', Name echo_seedling @ ''.proto''],
      codeType = ''proto'', cmdCmd = ''protoc'',
      cmdArgs = [''-I=.'', ''--go_out=.'', ''--go-grpc_out=.'',
                 filepath_Join [''protobufs'', Name echo_seedling @ ''.proto'']]\<rparr>"
  have b: "build (attempts silent_failure_world 0) = BuildExit [] (Some ''exit status 1'')"
    by (simp add: silent_failure_world_def stub_world_def good_attempt_def)
  have a: "attempt_v1 silent_failure_world echo_seedling ?j ?st
      = (End NotABuildFailure,
         (asked ?st)\<lparr>prompt := prompt ?st @ ''\<newline>\<newline>'' @ ''code'' @ ''\<newline>\<newline>'',
            trace := trace (asked ?st)
              @ [EvWriteFile (filepath_Join [''repos'', ''default'', Name echo_seedling, repoPath ?j])
                   (stripFence ''proto'' ''code''),
                 EvBuild (cmdCmd ?j) (cmdArgs ?j)
                   (filepath_Join [''repos'', ''default'', Name echo_seedling])]\<rparr>)"
    by (simp add: attempt_v1_def Let_def runSeedling_v1_def on_failure_v1_def
        silent_failure_world_def stub_world_def good_attempt_def init_state_def)
  then have r: "retry_v1 silent_failure_world echo_seedling ?j ?st
      = attempt_v1 silent_failure_world echo_seedling ?j ?st"
    by (subst retry_v1.simps) simp
  have g: "gptThread_v1 silent_failure_world echo_seedling
      = attempt_v1 silent_failure_world echo_seedling ?j ?st"
    by (simp add: gptThread_v1_first_stage Let_def r) (simp add: a)
  from b show ?thesis
    unfolding g a by (simp add: asked_def init_state_def)
qed

section \<open>The failure text that goes into the prompt\<close>





end
